theory Spec2Isabelle
  imports Complex_Main "HOL-Library.Sublist" "HOL-Library.Multiset"
begin

section \<open>GPU temperature watchdog (gpu\_watchdog.py)\<close>

text \<open>
  A shallow embedding of \<^verbatim>\<open>src/gpu_watchdog.py\<close>. The program talks to the outside world
  through \<^verbatim>\<open>nvidia-smi\<close>, \<^verbatim>\<open>psutil\<close>, \<^verbatim>\<open>time.sleep\<close>, the logger and the file system.
  Everything the outside world answers is an oracle of the environment record \<open>env\<close>; the
  program's own effects are collected in a state holding the list of actions performed and
  the list of logger calls made.

  Strings are \<open>char list\<close> and are read as ASCII text. Temperatures are real numbers: a
  decimal numeral denotes its exact value, the rounding of \<^verbatim>\<open>float\<close> is not modelled.
\<close>

subsection \<open>Python string operations used by the program\<close>

text \<open>\<^verbatim>\<open>str.lower()\<close> on ASCII text: the letters A--Z move to a--z, the rest is unchanged.\<close>

definition lower_char :: "char \<Rightarrow> char" where
  "lower_char c =
     (let n = (of_char c :: nat) in if 65 \<le> n \<and> n \<le> 90 then char_of (n + 32) else c)"

definition lower :: "string \<Rightarrow> string" where
  "lower s = map lower_char s"

text \<open>\<^verbatim>\<open>str.isspace()\<close> on an ASCII character: TAB, LF, VT, FF, CR, FS, GS, RS, US and space.\<close>

definition is_space :: "char \<Rightarrow> bool" where
  "is_space c =
     (let n = (of_char c :: nat) in (9 \<le> n \<and> n \<le> 13) \<or> (28 \<le> n \<and> n \<le> 32))"

text \<open>\<^verbatim>\<open>str.strip()\<close>: drop the white space at both ends.\<close>

definition strip :: "string \<Rightarrow> string" where
  "strip s = rev (dropWhile is_space (rev (dropWhile is_space s)))"

text \<open>\<^verbatim>\<open>s.split('\n')\<close>: the pieces between line feeds; the empty string gives one empty piece.\<close>

fun split_nl :: "string \<Rightarrow> string list" where
  "split_nl [] = [[]]"
| "split_nl (c # cs) =
     (if c = CHR 0x0A then [] # split_nl cs
      else (case split_nl cs of [] \<Rightarrow> [[c]] | l # ls \<Rightarrow> (c # l) # ls))"

text \<open>\<^verbatim>\<open>s.replace('.', '')\<close>: delete every full stop.\<close>

definition replace_dot :: "string \<Rightarrow> string" where
  "replace_dot s = filter (\<lambda>c. c \<noteq> CHR ''.'') s"

definition is_digit_char :: "char \<Rightarrow> bool" where
  "is_digit_char c = (let n = (of_char c :: nat) in 48 \<le> n \<and> n \<le> 57)"

text \<open>\<^verbatim>\<open>str.isdigit()\<close>: at least one character, and all of them digits.\<close>

definition isdigit :: "string \<Rightarrow> bool" where
  "isdigit s = (s \<noteq> [] \<and> list_all is_digit_char s)"

datatype py_error = ValueError | TypeError | AttributeError

definition digit_val :: "char \<Rightarrow> nat" where
  "digit_val c = of_char c - 48"

definition nat_of_digits :: "string \<Rightarrow> nat" where
  "nat_of_digits s = foldl (\<lambda>a c. 10 * a + digit_val c) 0 s"

text \<open>
  \<^verbatim>\<open>float(s)\<close> on a string of digits and full stops, the only strings the guard of
  \<^verbatim>\<open>get_gpu_temperature\<close> lets through: digits with at most one full stop denote their
  decimal value (\<^verbatim>\<open>"65"\<close>, \<^verbatim>\<open>"65.5"\<close>, \<^verbatim>\<open>"65."\<close>, \<^verbatim>\<open>".5"\<close>); with two or more full stops
  (\<^verbatim>\<open>"1.2.3"\<close>), or with no digit at all, Python raises \<^verbatim>\<open>ValueError\<close>. Signs, exponents,
  \<^verbatim>\<open>inf\<close> and \<^verbatim>\<open>nan\<close> never reach this call and are given \<^verbatim>\<open>ValueError\<close> here.
\<close>

definition py_float :: "string \<Rightarrow> py_error + real" where
  "py_float s =
     (let ip = takeWhile (\<lambda>c. c \<noteq> CHR ''.'') s;
          rest = dropWhile (\<lambda>c. c \<noteq> CHR ''.'') s;
          fp = tl rest
      in if \<not> list_all is_digit_char ip \<or> \<not> list_all is_digit_char fp \<or> ip @ fp = []
         then Inl ValueError
         else Inr (real (nat_of_digits (ip @ fp)) / 10 ^ length fp))"

subsection \<open>The sensor: \<^verbatim>\<open>GPUWatchdog.get_gpu_temperature\<close>\<close>

text \<open>What \<^verbatim>\<open>subprocess.run(["nvidia-smi", ...], timeout=10)\<close> can do.\<close>

datatype smi_result =
    Completed int string string   \<comment> \<open>return code, stdout, stderr\<close>
  | FileNotFoundError
  | TimeoutExpired
  | Other_exception

datatype level = DEBUG | INFO | WARNING | ERROR | CRITICAL

text \<open>One constructor for each message the program logs; the arguments are the values it formats.\<close>

datatype message =
    Gpu_temperatures "real list" real
  | No_valid_readings
  | Nvidia_smi_error string
  | Nvidia_smi_not_found
  | Nvidia_smi_timed_out
  | Error_getting_temperature
  | Found_process nat
  | Found_process_by_cmdline nat
  | Error_finding_processes
  | No_processes_to_shutdown
  | Initiating_shutdown nat
  | Sending_graceful_signal nat
  | Sending_ctrl_c nat
  | Still_running_after_ctrl_c nat
  | Shut_down_via_ctrl_c nat
  | Ctrl_c_failed nat
  | Shut_down_via_sigint nat
  | Already_terminated nat
  | Error_terminating nat
  | Waiting_for_grace int nat
  | All_shut_down
  | Still_waiting nat int
  | No_termination_needed
  | Force_killing nat
  | Force_killed nat
  | Error_force_killing nat
  | Shutdown_completed
  | Could_not_read_temperature
  | Current_temperature real
  | Exceeds_threshold real real
  | Waiting_after_shutdown
  | Watchdog_started real
  | Check_interval_is int
  | Received_interrupt
  | Unexpected_error
  | Watchdog_stopped

type_synonym log_entry = "level \<times> message"

text \<open>
  The loop of lines 75--78: each line is stripped; a line that is empty, or that is not all
  digits once its full stops are removed, is skipped; any other line goes through
  \<^verbatim>\<open>float\<close>, whose \<^verbatim>\<open>ValueError\<close> leaves the loop.
\<close>

fun collect_temps :: "string list \<Rightarrow> real list \<Rightarrow> py_error + real list" where
  "collect_temps [] temps = Inr temps"
| "collect_temps (l # ls) temps =
     (let temp_str = strip l in
      if temp_str \<noteq> [] \<and> isdigit (replace_dot temp_str)
      then (case py_float temp_str of
              Inl e \<Rightarrow> Inl e
            | Inr v \<Rightarrow> collect_temps ls (temps @ [v]))
      else collect_temps ls temps)"

text \<open>\<^verbatim>\<open>max(temps)\<close> on a non-empty list.\<close>

fun py_max :: "real \<Rightarrow> real list \<Rightarrow> real" where
  "py_max m [] = m"
| "py_max m (x # xs) = py_max (max m x) xs"

text \<open>
  \<^verbatim>\<open>get_gpu_temperature\<close> as a function of what the sensor query did: the reading
  (\<open>None\<close> is Python's \<^verbatim>\<open>None\<close>) and the logger calls it makes.
\<close>

definition get_gpu_temperature :: "smi_result \<Rightarrow> real option \<times> log_entry list" where
  "get_gpu_temperature r =
     (case r of
        Completed returncode out err \<Rightarrow>
          if returncode = 0 then
            (case collect_temps (split_nl (strip out)) [] of
               Inl e \<Rightarrow> (None, [(ERROR, Error_getting_temperature)])
             | Inr [] \<Rightarrow> (None, [(ERROR, No_valid_readings)])
             | Inr (t # ts) \<Rightarrow>
                 (Some (py_max t ts), [(DEBUG, Gpu_temperatures (t # ts) (py_max t ts))]))
          else (None, [(ERROR, Nvidia_smi_error err)])
      | FileNotFoundError \<Rightarrow> (None, [(ERROR, Nvidia_smi_not_found)])
      | TimeoutExpired \<Rightarrow> (None, [(ERROR, Nvidia_smi_timed_out)])
      | Other_exception \<Rightarrow> (None, [(ERROR, Error_getting_temperature)]))"

subsection \<open>Configuration: \<^verbatim>\<open>Config\<close>, \<^verbatim>\<open>load_config\<close>, \<^verbatim>\<open>save_default_config\<close>\<close>

record Config =
  temp_threshold :: real
  check_interval :: int
  grace_period :: int
  trex_process_names :: "string list"
  log_level :: string

text \<open>\<^verbatim>\<open>Config()\<close>: the defaults of the dataclass (lines 22--26).\<close>

definition Config_default :: Config where
  "Config_default =
     \<lparr>temp_threshold = 85.0, check_interval = 10, grace_period = 30,
      trex_process_names = [''t-rex.exe'', ''trex.exe'', ''t-rex'', ''trex''],
      log_level = ''INFO''\<rparr>"

text \<open>What \<^verbatim>\<open>json.load\<close> returns: an integer literal is an \<^verbatim>\<open>int\<close>, one with a fraction a \<^verbatim>\<open>float\<close>.\<close>

datatype json =
    JNull | JBool bool | JInt int | JFloat real | JStr string
  | JList "json list" | JObject "(string \<times> json) list"

text \<open>
  A path of the file system is absent, or cannot be opened, or holds text that is not JSON,
  or holds a JSON document.
\<close>

datatype file_state = Missing | Unreadable | Not_json | Json json

type_synonym filesystem = "string \<Rightarrow> file_state"

text \<open>
  Python does not check the annotations of a dataclass: \<^verbatim>\<open>Config(**config_data)\<close> stores
  whatever value the document gives. A value of the annotated type is stored in the record;
  an object holding a value of another type (\<^verbatim>\<open>{"temp_threshold": "hot"}\<close>) lies outside the
  record and is reported as \<open>Unvalidated\<close>, with the keyword arguments it was built from.
  An integer given for the \<^verbatim>\<open>float\<close> field keeps its numeric value.
\<close>

datatype load_result = Config_of Config | Unvalidated "(string \<times> json) list"

fun as_str_list :: "json list \<Rightarrow> string list option" where
  "as_str_list [] = Some []"
| "as_str_list (JStr s # js) = map_option (\<lambda>ss. s # ss) (as_str_list js)"
| "as_str_list (_ # js) = None"

definition set_field :: "string \<Rightarrow> json \<Rightarrow> Config \<Rightarrow> Config option" where
  "set_field k v c =
     (if k = ''temp_threshold'' then
        (case v of JFloat r \<Rightarrow> Some (c\<lparr>temp_threshold := r\<rparr>)
                 | JInt i \<Rightarrow> Some (c\<lparr>temp_threshold := real_of_int i\<rparr>)
                 | _ \<Rightarrow> None)
      else if k = ''check_interval'' then
        (case v of JInt i \<Rightarrow> Some (c\<lparr>check_interval := i\<rparr>) | _ \<Rightarrow> None)
      else if k = ''grace_period'' then
        (case v of JInt i \<Rightarrow> Some (c\<lparr>grace_period := i\<rparr>) | _ \<Rightarrow> None)
      else if k = ''trex_process_names'' then
        (case v of JList js \<Rightarrow> map_option (\<lambda>ns. c\<lparr>trex_process_names := ns\<rparr>) (as_str_list js)
                 | _ \<Rightarrow> None)
      else if k = ''log_level'' then
        (case v of JStr s \<Rightarrow> Some (c\<lparr>log_level := s\<rparr>) | _ \<Rightarrow> None)
      else None)"

fun set_fields :: "(string \<times> json) list \<Rightarrow> Config \<Rightarrow> Config option" where
  "set_fields [] c = Some c"
| "set_fields ((k, v) # kws) c =
     (case set_field k v c of None \<Rightarrow> None | Some c' \<Rightarrow> set_fields kws c')"

definition field_names :: "string list" where
  "field_names =
     [''temp_threshold'', ''check_interval'', ''grace_period'', ''trex_process_names'',
      ''log_level'']"

text \<open>
  The \<^verbatim>\<open>dict\<close> that \<^verbatim>\<open>json.load\<close> builds from the members of an object: each key once, with
  the value of its last member.
\<close>

definition py_dict :: "(string \<times> json) list \<Rightarrow> (string \<times> json) list" where
  "py_dict kws = map (\<lambda>k. (k, the (map_of (rev kws) k))) (remdups (map fst kws))"

text \<open>
  \<^verbatim>\<open>Config(**config_data)\<close> for the members of a JSON object: a key that is not a field
  raises \<^verbatim>\<open>TypeError\<close>; otherwise every key of the \<^verbatim>\<open>dict\<close> sets its field.
\<close>

definition Config_init :: "(string \<times> json) list \<Rightarrow> py_error + load_result" where
  "Config_init kws =
     (if list_ex (\<lambda>(k, v). k \<notin> set field_names) kws then Inl TypeError
      else (case set_fields (py_dict kws) Config_default of
              Some c \<Rightarrow> Inr (Config_of c)
            | None \<Rightarrow> Inr (Unvalidated (py_dict kws))))"

datatype printed =
    Error_loading_config
  | Using_default_configuration
  | Default_configuration_saved string
  | Error_saving_config
  | Dry_run_header
  | Current_gpu_temperature real
  | Threshold_line real
  | Temperature_exceeds
  | Found_n_processes nat
  | Process_line nat "string option"
  | No_processes_found
  | Temperature_safe
  | Could_not_read

text \<open>
  \<^verbatim>\<open>load_config\<close> (lines 263--274): any exception while opening, parsing or building the
  object prints two lines and falls through to \<^verbatim>\<open>Config()\<close>. A document that is not an
  object makes \<^verbatim>\<open>Config(**config_data)\<close> raise \<^verbatim>\<open>TypeError\<close>.
\<close>

definition load_config :: "filesystem \<Rightarrow> string \<Rightarrow> load_result \<times> printed list" where
  "load_config fs config_file =
     (let fallback = (Config_of Config_default, [Error_loading_config, Using_default_configuration])
      in case fs config_file of
           Missing \<Rightarrow> (Config_of Config_default, [])
         | Unreadable \<Rightarrow> fallback
         | Not_json \<Rightarrow> fallback
         | Json (JObject kws) \<Rightarrow>
             (case Config_init kws of Inl e \<Rightarrow> fallback | Inr c \<Rightarrow> (c, []))
         | Json _ \<Rightarrow> fallback)"

text \<open>The dictionary literal of lines 279--285, as the document \<^verbatim>\<open>json.dump\<close> writes.\<close>

definition default_config :: json where
  "default_config =
     JObject
       [(''temp_threshold'', JFloat 85.0),
        (''check_interval'', JInt 10),
        (''grace_period'', JInt 30),
        (''trex_process_names'',
           JList [JStr ''t-rex.exe'', JStr ''trex.exe'', JStr ''t-rex'', JStr ''trex'']),
        (''log_level'', JStr ''INFO'')]"

text \<open>
  What the write of lines 288--289 can do: succeed, fail to open the file (nothing changes),
  or fail after the file was opened for writing (a truncated file, which is not JSON).
\<close>

datatype write_outcome = Written | Open_failed | Dump_failed

definition save_default_config ::
  "write_outcome \<Rightarrow> filesystem \<Rightarrow> string \<Rightarrow> filesystem \<times> printed list" where
  "save_default_config w fs config_file =
     (case w of
        Written \<Rightarrow> (fs(config_file := Json default_config),
                     [Default_configuration_saved config_file])
      | Open_failed \<Rightarrow> (fs, [Error_saving_config])
      | Dump_failed \<Rightarrow> (fs(config_file := Not_json), [Error_saving_config]))"

subsection \<open>The environment and the state\<close>

datatype platform = Windows | Unix   \<comment> \<open>\<^verbatim>\<open>os.name == 'nt'\<close>, or not\<close>

datatype signal = SIGINT | CTRL_C_EVENT

text \<open>What a call of \<^verbatim>\<open>send_signal\<close>, \<^verbatim>\<open>terminate\<close> or \<^verbatim>\<open>kill\<close> on a process handle can do.\<close>

datatype call_result = Ok | NoSuchProcess | AccessDenied | OSError | Other_error

text \<open>
  A handle yielded by \<^verbatim>\<open>psutil.process_iter(['pid', 'name', 'cmdline'])\<close> with its \<^verbatim>\<open>info\<close>
  dictionary: psutil stores \<^verbatim>\<open>None\<close> for an attribute it was denied access to.
\<close>

record process =
  pid :: nat
  name :: "string option"
  cmdline :: "string list option"

text \<open>What the program does to the outside world, in the order it does it.\<close>

datatype action =
    Query_sensor
  | Enumerate
  | Send_signal nat signal call_result
  | Terminate nat call_result
  | Wait_procs "nat list" "nat list"   \<comment> \<open>the pids found gone and the pids found alive\<close>
  | Kill nat call_result
  | Sleep int

text \<open>
  The outside world: each oracle answers from the actions performed so far, so the answers
  may change in any way with time and with what the program has done.
\<close>

record env =
  os_name :: platform
  nvidia_smi :: "action list \<Rightarrow> smi_result"
  process_iter :: "action list \<Rightarrow> process list"
  send_signal :: "action list \<Rightarrow> nat \<Rightarrow> signal \<Rightarrow> call_result"
  is_running :: "action list \<Rightarrow> nat \<Rightarrow> bool"
  terminate :: "action list \<Rightarrow> nat \<Rightarrow> call_result"
  still_alive :: "action list \<Rightarrow> nat \<Rightarrow> bool"
    \<comment> \<open>whether \<^verbatim>\<open>psutil.wait_procs(..., timeout=0)\<close> reports the process alive\<close>
  kill :: "action list \<Rightarrow> nat \<Rightarrow> call_result"

record state =
  actions :: "action list"
  logs :: "log_entry list"

definition act :: "action \<Rightarrow> state \<Rightarrow> state" where
  "act a st = st\<lparr>actions := actions st @ [a]\<rparr>"

definition logger :: "level \<Rightarrow> message \<Rightarrow> state \<Rightarrow> state" where
  "logger l m st = st\<lparr>logs := logs st @ [(l, m)]\<rparr>"

fun sleep_of :: "action \<Rightarrow> int" where
  "sleep_of (Sleep n) = n"
| "sleep_of _ = 0"

text \<open>The seconds spent in \<^verbatim>\<open>time.sleep\<close> over a list of actions.\<close>

definition total_sleep :: "action list \<Rightarrow> int" where
  "total_sleep as = sum_list (map sleep_of as)"

text \<open>\<^verbatim>\<open>self.get_gpu_temperature()\<close> as a step of the state.\<close>

definition sample :: "env \<Rightarrow> state \<Rightarrow> real option \<times> state" where
  "sample e st =
     (let (t, lg) = get_gpu_temperature (nvidia_smi e (actions st))
      in (t, st\<lparr>actions := actions st @ [Query_sensor], logs := logs st @ lg\<rparr>))"

subsection \<open>The matcher: \<^verbatim>\<open>GPUWatchdog.find_trex_processes\<close>\<close>

text \<open>\<^verbatim>\<open>' '.join(xs)\<close>.\<close>

fun join_space :: "string list \<Rightarrow> string" where
  "join_space [] = []"
| "join_space [x] = x"
| "join_space (x # y # ys) = x @ '' '' @ join_space (y # ys)"

definition name_matches :: "Config \<Rightarrow> string \<Rightarrow> bool" where
  "name_matches cfg process_name =
     list_ex (\<lambda>trex_name. sublist (lower trex_name) process_name) (trex_process_names cfg)"

definition cmdline_matches :: "process \<Rightarrow> bool" where
  "cmdline_matches proc =
     (let cmdline = lower (join_space (case cmdline proc of None \<Rightarrow> [] | Some a \<Rightarrow> a))
      in sublist ''t-rex'' cmdline \<or> sublist ''trex'' cmdline)"

text \<open>
  The loop of lines 106--122 over the enumerated handles. A handle whose name is \<^verbatim>\<open>None\<close>
  makes \<^verbatim>\<open>.lower()\<close> raise \<^verbatim>\<open>AttributeError\<close>, which only the handler of line 124 catches:
  the enumeration stops there and the handles found so far are returned.
\<close>

fun scan_processes ::
  "Config \<Rightarrow> process list \<Rightarrow> process list \<Rightarrow> log_entry list \<Rightarrow> process list \<times> log_entry list"
where
  "scan_processes cfg [] trex_processes lg = (trex_processes, lg)"
| "scan_processes cfg (proc # rest) trex_processes lg =
     (case name proc of
        None \<Rightarrow> (trex_processes, lg @ [(ERROR, Error_finding_processes)])
      | Some nm \<Rightarrow>
          if name_matches cfg (lower nm)
          then scan_processes cfg rest (trex_processes @ [proc])
                 (lg @ [(DEBUG, Found_process (pid proc))])
          else if cmdline_matches proc
          then scan_processes cfg rest (trex_processes @ [proc])
                 (lg @ [(DEBUG, Found_process_by_cmdline (pid proc))])
          else scan_processes cfg rest trex_processes lg)"

definition find_trex_processes :: "Config \<Rightarrow> env \<Rightarrow> state \<Rightarrow> process list \<times> state" where
  "find_trex_processes cfg e st =
     (let (trex_processes, lg) = scan_processes cfg (process_iter e (actions st)) [] []
      in (trex_processes, st\<lparr>actions := actions st @ [Enumerate], logs := logs st @ lg\<rparr>))"

subsection \<open>The orchestrator: \<^verbatim>\<open>GPUWatchdog.graceful_shutdown_trex\<close>\<close>

text \<open>
  \<^verbatim>\<open>proc.terminate()\<close> inside a handler (lines 164 and 175). When it returns, control
  reaches \<^verbatim>\<open>terminated_processes.append(proc)\<close>; when it raises, the handlers of lines
  179--182 log and the process is not appended. The flag says whether the process is
  appended.
\<close>

definition terminate_fallback :: "env \<Rightarrow> process \<Rightarrow> state \<Rightarrow> state \<times> bool" where
  "terminate_fallback e proc st =
     (let r = terminate e (actions st) (pid proc);
          st1 = act (Terminate (pid proc) r) st
      in case r of
           Ok \<Rightarrow> (st1, True)
         | NoSuchProcess \<Rightarrow> (logger INFO (Already_terminated (pid proc)) st1, False)
         | _ \<Rightarrow> (logger ERROR (Error_terminating (pid proc)) st1, False))"

text \<open>
  The body of the loop of lines 140--182 for one process. On Windows the inner handler
  catches \<^verbatim>\<open>OSError\<close> and \<^verbatim>\<open>psutil.AccessDenied\<close> only, so \<^verbatim>\<open>psutil.NoSuchProcess\<close> and
  any other exception go to the outer handlers; elsewhere the bare \<^verbatim>\<open>except\<close> catches
  everything.
\<close>

definition signal_process :: "env \<Rightarrow> process \<Rightarrow> state \<Rightarrow> state \<times> bool" where
  "signal_process e proc st0 =
     (let st = logger INFO (Sending_graceful_signal (pid proc)) st0 in
      case os_name e of
        Windows \<Rightarrow>
          (let st1 = logger INFO (Sending_ctrl_c (pid proc)) st;
               r = send_signal e (actions st1) (pid proc) CTRL_C_EVENT;
               st2 = act (Send_signal (pid proc) CTRL_C_EVENT r) st1
           in case r of
                Ok \<Rightarrow>
                  (let st3 = act (Sleep 2) st2 in
                   if is_running e (actions st3) (pid proc)
                   then (logger INFO (Still_running_after_ctrl_c (pid proc)) st3, True)
                   else (logger INFO (Shut_down_via_ctrl_c (pid proc)) st3, False))
              | OSError \<Rightarrow>
                  terminate_fallback e proc (logger WARNING (Ctrl_c_failed (pid proc)) st2)
              | AccessDenied \<Rightarrow>
                  terminate_fallback e proc (logger WARNING (Ctrl_c_failed (pid proc)) st2)
              | NoSuchProcess \<Rightarrow> (logger INFO (Already_terminated (pid proc)) st2, False)
              | Other_error \<Rightarrow> (logger ERROR (Error_terminating (pid proc)) st2, False))
      | Unix \<Rightarrow>
          (let r = send_signal e (actions st) (pid proc) SIGINT;
               st2 = act (Send_signal (pid proc) SIGINT r) st
           in case r of
                Ok \<Rightarrow>
                  (let st3 = act (Sleep 2) st2 in
                   if \<not> is_running e (actions st3) (pid proc)
                   then (logger INFO (Shut_down_via_sigint (pid proc)) st3, False)
                   else (st3, True))
              | _ \<Rightarrow> terminate_fallback e proc st2))"

text \<open>The loop of lines 140--182, building \<^verbatim>\<open>terminated_processes\<close>.\<close>

fun interrupt_phase ::
  "env \<Rightarrow> process list \<Rightarrow> process list \<Rightarrow> state \<Rightarrow> process list \<times> state" where
  "interrupt_phase e [] terminated_processes st = (terminated_processes, st)"
| "interrupt_phase e (proc # rest) terminated_processes st =
     (let (st1, appended) = signal_process e proc st
      in interrupt_phase e rest
           (if appended then terminated_processes @ [proc] else terminated_processes) st1)"

text \<open>
  The countdown of lines 189--195: \<^verbatim>\<open>remaining\<close> runs through
  \<^verbatim>\<open>range(grace_period, 0, -5)\<close>, that is \<open>g, g - 5, \<dots>\<close> while positive.
\<close>

function countdown :: "env \<Rightarrow> process list \<Rightarrow> int \<Rightarrow> state \<Rightarrow> state" where
  "countdown e terminated_processes remaining st =
     (if remaining \<le> 0 then st
      else
        (let alive_count =
               length (filter (\<lambda>proc. is_running e (actions st) (pid proc)) terminated_processes)
         in if alive_count = 0 then logger INFO All_shut_down st
            else countdown e terminated_processes (remaining - 5)
                   (act (Sleep 5) (logger INFO (Still_waiting alive_count remaining) st))))"
  by pat_completeness auto
termination
  by (relation "measure (\<lambda>(e, ps, remaining, st). nat remaining)") auto

declare countdown.simps [simp del]

text \<open>
  Lines 185--200. \<^verbatim>\<open>psutil.wait_procs\<close> returns the survivors in no particular order; the
  model lists them in the order of \<^verbatim>\<open>terminated_processes\<close>.
\<close>

definition grace_wait :: "Config \<Rightarrow> env \<Rightarrow> process list \<Rightarrow> state \<Rightarrow> process list \<times> state" where
  "grace_wait cfg e terminated_processes st =
     (if terminated_processes \<noteq> [] then
        (let st1 = logger INFO
                     (Waiting_for_grace (grace_period cfg) (length terminated_processes)) st;
             st2 = countdown e terminated_processes (grace_period cfg) st1;
             alive = filter (\<lambda>proc. still_alive e (actions st2) (pid proc)) terminated_processes;
             gone = filter (\<lambda>proc. \<not> still_alive e (actions st2) (pid proc)) terminated_processes
         in (alive, act (Wait_procs (map pid gone) (map pid alive)) st2))
      else ([], logger INFO No_termination_needed st))"

text \<open>The loop of lines 205--210.\<close>

fun kill_loop :: "env \<Rightarrow> process list \<Rightarrow> state \<Rightarrow> state" where
  "kill_loop e [] st = st"
| "kill_loop e (proc # rest) st =
     (let r = kill e (actions st) (pid proc);
          st1 = act (Kill (pid proc) r) st
      in kill_loop e rest
           (case r of
              Ok \<Rightarrow> logger INFO (Force_killed (pid proc)) st1
            | _ \<Rightarrow> logger ERROR (Error_force_killing (pid proc)) st1))"

definition force_kill :: "env \<Rightarrow> process list \<Rightarrow> state \<Rightarrow> state" where
  "force_kill e alive st =
     (if alive \<noteq> [] then kill_loop e alive (logger WARNING (Force_killing (length alive)) st)
      else st)"

definition graceful_shutdown_trex ::
  "Config \<Rightarrow> env \<Rightarrow> process list \<Rightarrow> state \<Rightarrow> bool \<times> state" where
  "graceful_shutdown_trex cfg e processes st =
     (if processes = [] then (True, logger INFO No_processes_to_shutdown st)
      else
        (let st1 = logger WARNING (Initiating_shutdown (length processes)) st;
             (terminated_processes, st2) = interrupt_phase e processes [] st1;
             (alive, st3) = grace_wait cfg e terminated_processes st2;
             st4 = force_kill e alive st3
         in (True, logger INFO Shutdown_completed st4)))"

subsection \<open>The loop: \<^verbatim>\<open>GPUWatchdog.run\<close>\<close>

text \<open>\<^verbatim>\<open>time.sleep(n)\<close>: a negative length raises \<^verbatim>\<open>ValueError\<close>.\<close>

definition py_sleep :: "int \<Rightarrow> state \<Rightarrow> (py_error \<times> state) + state" where
  "py_sleep n st = (if n < 0 then Inl (ValueError, st) else Inr (act (Sleep n) st))"

text \<open>One pass through the body of the \<^verbatim>\<open>while\<close> loop (lines 222--252).\<close>

definition tick :: "Config \<Rightarrow> env \<Rightarrow> state \<Rightarrow> (py_error \<times> state) + state" where
  "tick cfg e st =
     (let (current_temp, st1) = sample e st in
      case current_temp of
        None \<Rightarrow>
          py_sleep (check_interval cfg) (logger WARNING Could_not_read_temperature st1)
      | Some t \<Rightarrow>
          (let st2 = logger DEBUG (Current_temperature t) st1 in
           if t \<ge> temp_threshold cfg then
             (let st3 = logger CRITICAL (Exceeds_threshold t (temp_threshold cfg)) st2;
                  (trex_processes, st4) = find_trex_processes cfg e st3
              in if trex_processes \<noteq> [] then
                   (let (ok, st5) = graceful_shutdown_trex cfg e trex_processes st4
                    in py_sleep 60 (logger INFO Waiting_after_shutdown st5))
                 else py_sleep (check_interval cfg) (logger WARNING No_processes_to_shutdown st4))
           else py_sleep (check_interval cfg) st2))"

text \<open>
  The loop runs until an exception leaves it. The first argument is the number of passes
  completed before the operator's interrupt (\<^verbatim>\<open>KeyboardInterrupt\<close>) arrives; an exception
  raised inside a pass ends the loop at once (the \<^verbatim>\<open>try\<close> encloses the \<^verbatim>\<open>while\<close>). Every
  pass is \<open>tick\<close>, applied to the state the passes before it have left.
\<close>

fun run_loop :: "nat \<Rightarrow> Config \<Rightarrow> env \<Rightarrow> state \<Rightarrow> state" where
  "run_loop 0 cfg e st = logger INFO Watchdog_stopped (logger INFO Received_interrupt st)"
| "run_loop (Suc n) cfg e st =
     (case tick cfg e st of
        Inl (err, st') \<Rightarrow> logger INFO Watchdog_stopped (logger ERROR Unexpected_error st')
      | Inr st' \<Rightarrow> run_loop n cfg e st')"

definition run :: "nat \<Rightarrow> Config \<Rightarrow> env \<Rightarrow> state \<Rightarrow> state" where
  "run n cfg e st =
     run_loop n cfg e
       (logger INFO (Check_interval_is (check_interval cfg))
          (logger INFO (Watchdog_started (temp_threshold cfg)) st))"

subsection \<open>Dry-run mode of \<^verbatim>\<open>main\<close> (lines 331--353)\<close>

text \<open>The truth value of \<^verbatim>\<open>temp\<close> in \<^verbatim>\<open>if temp:\<close>: \<^verbatim>\<open>None\<close> and \<^verbatim>\<open>0.0\<close> are false.\<close>

fun truthy :: "real option \<Rightarrow> bool" where
  "truthy None = False"
| "truthy (Some t) = (t \<noteq> 0)"

definition dry_run :: "Config \<Rightarrow> env \<Rightarrow> state \<Rightarrow> printed list \<times> state" where
  "dry_run cfg e st =
     (let (temp, st1) = sample e st in
      if truthy temp then
        (let t = the temp;
             head = [Dry_run_header, Current_gpu_temperature t, Threshold_line (temp_threshold cfg)]
         in if t \<ge> temp_threshold cfg then
              (let (processes, st2) = find_trex_processes cfg e st1
               in if processes \<noteq> [] then
                    (head @ [Temperature_exceeds, Found_n_processes (length processes)]
                       @ map (\<lambda>proc. Process_line (pid proc) (name proc)) processes, st2)
                  else (head @ [Temperature_exceeds, No_processes_found], st2))
            else (head @ [Temperature_safe], st1))
      else ([Dry_run_header, Could_not_read], st1))"

subsection \<open>Notions of the specification\<close>

text \<open>
  The final states the specification gives a target, and a fifth the program adds: the
  handler of line 182 logged an error for the process and left it as it is.
\<close>

datatype final_state = gracefullyExited | forceKilled | killFailed | alreadyGone | signalFailed

text \<open>
  The program keeps no outcome records: what became of a process shows in the log lines
  and in the actions. A process is \<open>gracefullyExited\<close> when the program logs that it shut
  down after the interrupt or \<^verbatim>\<open>wait_procs\<close> reports it gone, \<open>alreadyGone\<close> when the
  program logs it as already terminated (line 180), \<open>forceKilled\<close> when \<^verbatim>\<open>kill\<close> returned,
  \<open>killFailed\<close> when \<^verbatim>\<open>kill\<close> raised, and \<open>signalFailed\<close> when the handler of line 182
  logged it.
\<close>

fun log_outcome :: "log_entry \<Rightarrow> (nat \<times> final_state) list" where
  "log_outcome (l, Shut_down_via_sigint p) = [(p, gracefullyExited)]"
| "log_outcome (l, Shut_down_via_ctrl_c p) = [(p, gracefullyExited)]"
| "log_outcome (l, Already_terminated p) = [(p, alreadyGone)]"
| "log_outcome (l, Error_terminating p) = [(p, signalFailed)]"
| "log_outcome (l, m) = []"

fun action_outcome :: "action \<Rightarrow> (nat \<times> final_state) list" where
  "action_outcome (Wait_procs gone alive) = map (\<lambda>p. (p, gracefullyExited)) gone"
| "action_outcome (Kill p r) = [(p, if r = Ok then forceKilled else killFailed)]"
| "action_outcome a = []"

definition outcomes :: "state \<Rightarrow> (nat \<times> final_state) list" where
  "outcomes st = concat (map log_outcome (logs st)) @ concat (map action_outcome (actions st))"

definition final_states_of :: "state \<Rightarrow> nat \<Rightarrow> final_state list" where
  "final_states_of st p = map snd (filter (\<lambda>(q, s). q = p) (outcomes st))"

definition initial :: state where
  "initial = \<lparr>actions = [], logs = []\<rparr>"

text \<open>Whether a message was logged, at any level.\<close>

definition logged :: "state \<Rightarrow> message \<Rightarrow> bool" where
  "logged st m = (m \<in> snd ` set (logs st))"

text \<open>The actions and the log lines a step adds to a state.\<close>

definition new_actions :: "state \<Rightarrow> state \<Rightarrow> action list" where
  "new_actions st st' = drop (length (actions st)) (actions st')"

definition new_logs :: "state \<Rightarrow> state \<Rightarrow> log_entry list" where
  "new_logs st st' = drop (length (logs st)) (logs st')"

text \<open>The state a pass of the loop ends in, whether it ends normally or by an exception.\<close>

definition end_state :: "(py_error \<times> state) + state \<Rightarrow> state" where
  "end_state r = (case r of Inl (err, st) \<Rightarrow> st | Inr st \<Rightarrow> st)"

text \<open>The graceful-interrupt signal of the platform (lines 149 and 168).\<close>

definition interrupt_signal :: "platform \<Rightarrow> signal" where
  "interrupt_signal os = (case os of Windows \<Rightarrow> CTRL_C_EVENT | Unix \<Rightarrow> SIGINT)"

text \<open>The pids that have an outcome, with multiplicity.\<close>

definition outcome_pids :: "state \<Rightarrow> nat multiset" where
  "outcome_pids st = mset (map fst (outcomes st))"

subsection \<open>Concrete inputs\<close>

text \<open>
  An environment whose answers never change: the platform, the sensor's output, the
  enumerated processes, what \<^verbatim>\<open>send_signal\<close> and \<^verbatim>\<open>terminate\<close> do, and whether processes
  stay alive; \<^verbatim>\<open>kill\<close> succeeds.
\<close>

definition constant_env ::
  "platform \<Rightarrow> string \<Rightarrow> process list \<Rightarrow> call_result \<Rightarrow> call_result \<Rightarrow> bool \<Rightarrow> env" where
  "constant_env os out procs sig_result term_result alive =
     \<lparr>os_name = os,
      nvidia_smi = (\<lambda>a. Completed 0 out []),
      process_iter = (\<lambda>a. procs),
      send_signal = (\<lambda>a p s. sig_result),
      is_running = (\<lambda>a p. alive),
      terminate = (\<lambda>a p. term_result),
      still_alive = (\<lambda>a p. alive),
      kill = (\<lambda>a p. Ok)\<rparr>"

definition miner :: process where
  "miner = \<lparr>pid = 1, name = Some ''T-Rex.EXE'', cmdline = Some [''T-Rex.EXE'', ''-a'', ''kawpow'']\<rparr>"

definition script :: process where
  "script = \<lparr>pid = 7, name = Some ''python'', cmdline = Some [''python'', ''trex_stats.py'']\<rparr>"

definition shell :: process where
  "shell = \<lparr>pid = 9, name = Some ''bash'', cmdline = Some [''bash'']\<rparr>"

text \<open>A handle whose name psutil was denied.\<close>

definition denied :: process where
  "denied = \<lparr>pid = 4, name = None, cmdline = None\<rparr>"

text \<open>
  An environment in which every signal is delivered and every process exits once the
  program has slept 10 seconds in all.
\<close>

definition fading_env :: env where
  "fading_env =
     \<lparr>os_name = Unix,
      nvidia_smi = (\<lambda>a. Completed 0 ''90'' []),
      process_iter = (\<lambda>a. [miner]),
      send_signal = (\<lambda>a p s. Ok),
      is_running = (\<lambda>a p. total_sleep a < 10),
      terminate = (\<lambda>a p. Ok),
      still_alive = (\<lambda>a p. total_sleep a < 10),
      kill = (\<lambda>a p. Ok)\<rparr>"

section \<open>Properties\<close>

subsection \<open>Basic facts about the state\<close>

lemma actions_act [simp]: "actions (act a st) = actions st @ [a]"
  by (simp add: act_def)

lemma actions_logger [simp]: "actions (logger l m st) = actions st"
  by (simp add: logger_def)

lemma logs_act [simp]: "logs (act a st) = logs st"
  by (simp add: act_def)

lemma logs_logger [simp]: "logs (logger l m st) = logs st @ [(l, m)]"
  by (simp add: logger_def)

lemma actions_sample [simp]: "actions (snd (sample e st)) = actions st @ [Query_sensor]"
  by (simp add: sample_def case_prod_beta)

lemma fst_sample: "fst (sample e st) = fst (get_gpu_temperature (nvidia_smi e (actions st)))"
  by (simp add: sample_def case_prod_beta)

subsection \<open>The sensor\<close>

text \<open>
  As long as \<^verbatim>\<open>float\<close> accepts every line that passes the guard of line 77, the reading is
  the maximum of the values of those lines, and there is no reading exactly when no line
  passes the guard.
\<close>

lemma collect_temps_accepted:
  "\<forall>l \<in> set ls. strip l \<noteq> [] \<and> isdigit (replace_dot (strip l))
        \<longrightarrow> (\<exists>v. py_float (strip l) = Inr v) \<Longrightarrow>
   collect_temps ls temps =
     Inr (temps @ map (\<lambda>l. projr (py_float (strip l)))
                    (filter (\<lambda>l. strip l \<noteq> [] \<and> isdigit (replace_dot (strip l))) ls))"
  by (induction ls arbitrary: temps) (auto simp: Let_def)

lemma py_max_fold: "py_max m xs = fold max xs m"
  by (induction xs arbitrary: m) (simp_all add: max.commute)

lemma py_max_Max: "py_max m xs = Max (set (m # xs))"
  by (simp only: py_max_fold Max.set_eq_fold)

lemma reading_when_float_accepts:
  assumes "\<forall>l \<in> set (split_nl (strip out)). strip l \<noteq> [] \<and> isdigit (replace_dot (strip l))
             \<longrightarrow> (\<exists>v. py_float (strip l) = Inr v)"
  shows "fst (get_gpu_temperature (Completed 0 out err)) =
     (let temps = map (\<lambda>l. projr (py_float (strip l)))
                    (filter (\<lambda>l. strip l \<noteq> [] \<and> isdigit (replace_dot (strip l)))
                       (split_nl (strip out)))
      in if temps = [] then None else Some (Max (set temps)))"
proof -
  let ?temps = "map (\<lambda>l. projr (py_float (strip l)))
                  (filter (\<lambda>l. strip l \<noteq> [] \<and> isdigit (replace_dot (strip l)))
                     (split_nl (strip out)))"
  have c: "collect_temps (split_nl (strip out)) [] = Inr ?temps"
    using collect_temps_accepted [OF assms, of "[]"] by simp
  show ?thesis
  proof (cases ?temps)
    case Nil
    with c show ?thesis by (simp add: get_gpu_temperature_def)
  next
    case (Cons t ts)
    with c show ?thesis by (simp add: get_gpu_temperature_def py_max_Max)
  qed
qed

text \<open>
  C3. The claim: with exit code 0, each line that does not parse as a non-negative number
  is discarded on its own, and one malformed line never invalidates a reading that is
  otherwise valid. The program does discard a line such as \<^verbatim>\<open>[N/A]\<close>, but a line with two
  full stops passes the guard of line 77 and makes \<^verbatim>\<open>float\<close> raise: the output
  \<^verbatim>\<open>65\<close>, \<^verbatim>\<open>1.2.3\<close> gives no reading at all, although the line \<^verbatim>\<open>65\<close> alone gives 65.
\<close>

theorem sensor_multi_dot_line:
  "fst (get_gpu_temperature (Completed 0 ''65\<newline>1.2.3\<newline>'' [])) = None
   \<and> fst (get_gpu_temperature (Completed 0 ''65\<newline>'' [])) = Some 65
   \<and> fst (get_gpu_temperature (Completed 0 ''65\<newline>[N/A]\<newline>'' [])) = Some 65"
  by code_simp

subsection \<open>The matcher\<close>

text \<open>
  The handles returned are those matched by name or by command line, in enumeration order,
  among the handles enumerated before the first one without a name.
\<close>

lemma scan_processes_found:
  "fst (scan_processes cfg procs found lg) =
     found @ filter (\<lambda>proc. name_matches cfg (lower (the (name proc))) \<or> cmdline_matches proc)
               (takeWhile (\<lambda>proc. name proc \<noteq> None) procs)"
  by (induction procs arbitrary: found lg) (auto split: option.splits)

lemma find_trex_processes_found:
  "fst (find_trex_processes cfg e st) =
     filter (\<lambda>proc. name_matches cfg (lower (the (name proc))) \<or> cmdline_matches proc)
       (takeWhile (\<lambda>proc. name proc \<noteq> None) (process_iter e (actions st)))"
  by (simp add: find_trex_processes_def case_prod_beta scan_processes_found)

text \<open>
  C4, as stated: with an empty list of target names the matcher returns no process. It
  fails: the command-line test of line 117 uses the literals \<^verbatim>\<open>t-rex\<close> and \<^verbatim>\<open>trex\<close>, whatever
  the configuration says.
\<close>

theorem matcher_empty_names_counterexample:
  "trex_process_names (Config_default\<lparr>trex_process_names := []\<rparr>) = []
   \<and> fst (find_trex_processes (Config_default\<lparr>trex_process_names := []\<rparr>)
            (constant_env Unix ''90'' [shell, script] Ok Ok True) initial) \<noteq> []"
  by code_simp

text \<open>
  C4, amended: with an empty list of target names no process matches by its display name;
  the matcher returns exactly the handles whose lower-cased command line contains \<^verbatim>\<open>t-rex\<close>
  or \<^verbatim>\<open>trex\<close> (among those enumerated before the first handle without a name).
\<close>

theorem matcher_empty_names:
  "trex_process_names cfg = [] \<Longrightarrow>
   fst (find_trex_processes cfg e st) =
     filter cmdline_matches
       (takeWhile (\<lambda>proc. name proc \<noteq> None) (process_iter e (actions st)))"
  by (simp add: find_trex_processes_found name_matches_def)

theorem matcher_empty_names_witness:
  "trex_process_names (Config_default\<lparr>trex_process_names := []\<rparr>) = []
   \<and> fst (find_trex_processes (Config_default\<lparr>trex_process_names := []\<rparr>)
            (constant_env Unix ''90'' [shell, script, miner] Ok Ok True) initial)
       = [script, miner]"
proof -
  have h: "trex_process_names (Config_default\<lparr>trex_process_names := []\<rparr>) = []"
    by simp
  have "filter cmdline_matches
          (takeWhile (\<lambda>proc. name proc \<noteq> None) [shell, script, miner]) = [script, miner]"
    by code_simp
  with matcher_empty_names
         [OF h, of "constant_env Unix ''90'' [shell, script, miner] Ok Ok True" initial] h
  show ?thesis by (simp add: constant_env_def initial_def)
qed

text \<open>
  Among the handles enumerated before the first one without a name, a handle matches by
  name when its lower-cased display name contains the lower-cased form of some configured
  name: both sides are lower-cased before the test.
\<close>

lemma matcher_lower_cases_both_sides:
  "fst (find_trex_processes cfg e st) =
     filter (\<lambda>proc. (\<exists>trex_name \<in> set (trex_process_names cfg).
                       sublist (lower trex_name) (lower (the (name proc))))
                   \<or> cmdline_matches proc)
       (takeWhile (\<lambda>proc. name proc \<noteq> None) (process_iter e (actions st)))"
  by (simp add: find_trex_processes_found name_matches_def list_ex_iff)

text \<open>
  C8. The claim: for every process handle the lower-cased display name is tested against
  the lower-cased configured names, so a process named \<^verbatim>\<open>T-Rex.EXE\<close> matches the list
  \<^verbatim>\<open>["t-rex"]\<close>. It does when the process is enumerated alone. Enumerated after a handle
  whose name psutil was denied, it is not matched: \<^verbatim>\<open>.lower()\<close> on \<^verbatim>\<open>None\<close> raises
  \<^verbatim>\<open>AttributeError\<close>, which the per-process handler of line 121 does not catch, and the
  handler of line 124 ends the scan.
\<close>

theorem matcher_nameless_handle:
  "sublist (lower ''t-rex'') (lower ''T-Rex.EXE'')
   \<and> fst (find_trex_processes (Config_default\<lparr>trex_process_names := [''t-rex'']\<rparr>)
            (constant_env Windows ''90''
               [\<lparr>pid = 1, name = Some ''T-Rex.EXE'', cmdline = None\<rparr>] Ok Ok True)
            initial)
       = [\<lparr>pid = 1, name = Some ''T-Rex.EXE'', cmdline = None\<rparr>]
   \<and> fst (find_trex_processes (Config_default\<lparr>trex_process_names := [''t-rex'']\<rparr>)
            (constant_env Windows ''90''
               [denied, \<lparr>pid = 1, name = Some ''T-Rex.EXE'', cmdline = None\<rparr>] Ok Ok True)
            initial)
       = []"
  by code_simp

subsection \<open>Configuration\<close>

lemma default_config_loads:
  "Config_init
     [(''temp_threshold'', JFloat 85.0),
      (''check_interval'', JInt 10),
      (''grace_period'', JInt 30),
      (''trex_process_names'',
         JList [JStr ''t-rex.exe'', JStr ''trex.exe'', JStr ''t-rex'', JStr ''trex'']),
      (''log_level'', JStr ''INFO'')]
   = Inr (Config_of Config_default)"
  by (simp add: Config_init_def py_dict_def field_names_def set_field_def Config_default_def)

text \<open>
  C9, as stated: loading a malformed configuration file returns the default configuration.
  It fails for a file that is malformed in its values but can be loaded: the program does not
  check the types of the values, and the document \<^verbatim>\<open>{"temp_threshold": "hot"}\<close> loads as a
  \<^verbatim>\<open>Config\<close> object whose threshold is the string \<^verbatim>\<open>hot\<close>, not as the defaults.
\<close>

theorem load_config_ill_typed_counterexample:
  "fst (load_config (\<lambda>p. Json (JObject [(''temp_threshold'', JStr ''hot'')]))
          ''gpu_watchdog_config.json'')
     = Unvalidated [(''temp_threshold'', JStr ''hot'')]
   \<and> fst (load_config (\<lambda>p. Json (JObject [(''temp_threshold'', JStr ''hot'')]))
            ''gpu_watchdog_config.json'')
     \<noteq> Config_of Config_default"
  by (simp add: load_config_def Config_init_def py_dict_def field_names_def set_field_def)

text \<open>
  C9, amended. Loading a file that is missing or cannot be loaded (it cannot be read, is not
  JSON, holds a JSON document that is not an object, or holds an object with a member that
  is not a field of \<^verbatim>\<open>Config\<close>) returns the default configuration: threshold 85.0, interval
  10, grace period 30, the four default names and level \<^verbatim>\<open>INFO\<close>; the fallback is printed
  unless the file is missing. A successful \<^verbatim>\<open>save_default_config\<close> stores the document that
  holds these same values under the field names of \<^verbatim>\<open>Config\<close> and reports the file; loading
  the file it has written returns the default configuration, without the fallback lines.
\<close>

theorem load_config_defaults:
  "(fs config_file = Missing \<or> fs config_file = Unreadable \<or> fs config_file = Not_json
      \<or> (\<exists>j. fs config_file = Json j \<and> (\<forall>kws. j \<noteq> JObject kws))
      \<or> (\<exists>kws. fs config_file = Json (JObject kws)
                \<and> (\<exists>k v. (k, v) \<in> set kws \<and> k \<notin> set field_names))
      \<longrightarrow> load_config fs config_file =
            (Config_of \<lparr>temp_threshold = 85.0, check_interval = 10, grace_period = 30,
                        trex_process_names = [''t-rex.exe'', ''trex.exe'', ''t-rex'', ''trex''],
                        log_level = ''INFO''\<rparr>,
             if fs config_file = Missing then []
             else [Error_loading_config, Using_default_configuration]))
   \<and> save_default_config Written fs config_file =
        (fs(config_file :=
              Json (JObject
                [(''temp_threshold'', JFloat 85.0),
                 (''check_interval'', JInt 10),
                 (''grace_period'', JInt 30),
                 (''trex_process_names'',
                    JList [JStr ''t-rex.exe'', JStr ''trex.exe'', JStr ''t-rex'', JStr ''trex'']),
                 (''log_level'', JStr ''INFO'')])),
         [Default_configuration_saved config_file])
   \<and> load_config (fst (save_default_config Written fs config_file)) config_file =
        (Config_of \<lparr>temp_threshold = 85.0, check_interval = 10, grace_period = 30,
                    trex_process_names = [''t-rex.exe'', ''trex.exe'', ''t-rex'', ''trex''],
                    log_level = ''INFO''\<rparr>,
         [])"
proof -
  let ?fallback = "if fs config_file = Missing then []
                   else [Error_loading_config, Using_default_configuration]"
  have d: "Config_default =
             \<lparr>temp_threshold = 85.0, check_interval = 10, grace_period = 30,
              trex_process_names = [''t-rex.exe'', ''trex.exe'', ''t-rex'', ''trex''],
              log_level = ''INFO''\<rparr>"
    by (simp add: Config_default_def)
  have "load_config fs config_file = (Config_of Config_default, ?fallback)"
    if "fs config_file = Missing \<or> fs config_file = Unreadable \<or> fs config_file = Not_json"
    using that by (auto simp: load_config_def)
  moreover have "load_config fs config_file = (Config_of Config_default, ?fallback)"
    if "fs config_file = Json j" "\<forall>kws. j \<noteq> JObject kws" for j
    using that by (cases j) (auto simp: load_config_def)
  moreover have "load_config fs config_file = (Config_of Config_default, ?fallback)"
    if "fs config_file = Json (JObject kws)" "(k, v) \<in> set kws" "k \<notin> set field_names" for kws k v
    using that by (auto simp: load_config_def Config_init_def list_ex_iff)
  moreover have "save_default_config Written fs config_file =
        (fs(config_file :=
              Json (JObject
                [(''temp_threshold'', JFloat 85.0),
                 (''check_interval'', JInt 10),
                 (''grace_period'', JInt 30),
                 (''trex_process_names'',
                    JList [JStr ''t-rex.exe'', JStr ''trex.exe'', JStr ''t-rex'', JStr ''trex'']),
                 (''log_level'', JStr ''INFO'')])),
         [Default_configuration_saved config_file])"
    by (simp add: save_default_config_def default_config_def)
  moreover have "load_config (fst (save_default_config Written fs config_file)) config_file
                   = (Config_of Config_default, [])"
    using default_config_loads
    by (simp add: load_config_def save_default_config_def default_config_def)
  ultimately show ?thesis unfolding d by blast
qed

theorem load_config_defaults_witness:
  "load_config (\<lambda>p. Not_json) ''gpu_watchdog_config.json''
     = (Config_of Config_default, [Error_loading_config, Using_default_configuration])
   \<and> load_config (\<lambda>p. Json (JObject [(''threshold'', JInt 90)])) ''gpu_watchdog_config.json''
     = (Config_of Config_default, [Error_loading_config, Using_default_configuration])
   \<and> load_config
        (fst (save_default_config Written (\<lambda>p. Not_json) ''gpu_watchdog_config.json''))
        ''gpu_watchdog_config.json''
     = (Config_of Config_default, [])"
proof -
  let ?f = "''gpu_watchdog_config.json''"
  let ?doc = "\<lambda>p::string. Json (JObject [(''threshold'', JInt 90)])"
  have a: "load_config (\<lambda>p. Not_json) ?f
             = (Config_of Config_default, [Error_loading_config, Using_default_configuration])"
    using load_config_defaults [of "\<lambda>p. Not_json" ?f, THEN conjunct1]
    by (simp add: Config_default_def)
  have "\<exists>kws. ?doc ?f = Json (JObject kws)
               \<and> (\<exists>k v. (k, v) \<in> set kws \<and> k \<notin> set field_names)"
    by (auto simp: field_names_def)
  then have b: "load_config ?doc ?f
             = (Config_of Config_default, [Error_loading_config, Using_default_configuration])"
    using load_config_defaults [of ?doc ?f, THEN conjunct1]
    by (simp add: Config_default_def)
  have c: "load_config (fst (save_default_config Written (\<lambda>p. Not_json) ?f)) ?f
             = (Config_of Config_default, [])"
    using load_config_defaults [of "\<lambda>p. Not_json" ?f, THEN conjunct2, THEN conjunct2]
    by (simp add: Config_default_def)
  from a b c show ?thesis by simp
qed

subsection \<open>Dry-run mode\<close>

text \<open>
  C10. In dry-run mode a reading of exactly 0.0 takes the branch that prints that the
  temperature could not be read: \<^verbatim>\<open>if temp:\<close> tests the truth value of the reading, and
  0.0 is false. The witness is the sensor output \<^verbatim>\<open>0\<close>.
\<close>

theorem dry_run_zero_reading:
  "fst (get_gpu_temperature (nvidia_smi e (actions st))) = Some 0 \<Longrightarrow>
   fst (dry_run cfg e st) = [Dry_run_header, Could_not_read]"
  by (simp add: dry_run_def case_prod_beta fst_sample)

theorem dry_run_zero_reading_witness:
  "fst (get_gpu_temperature
          (nvidia_smi (constant_env Unix ''0'' [miner] Ok Ok True) (actions initial))) = Some 0
   \<and> fst (dry_run Config_default (constant_env Unix ''0'' [miner] Ok Ok True) initial)
       = [Dry_run_header, Could_not_read]"
proof -
  have h: "fst (get_gpu_temperature
                  (nvidia_smi (constant_env Unix ''0'' [miner] Ok Ok True) (actions initial)))
           = Some 0"
    by code_simp
  from dry_run_zero_reading [OF h] h show ?thesis by simp
qed

subsection \<open>The orchestrator: actions, sleep and outcomes of each phase\<close>

lemma total_sleep_Nil [simp]: "total_sleep [] = 0"
  by (simp add: total_sleep_def)

lemma total_sleep_append [simp]: "total_sleep (xs @ ys) = total_sleep xs + total_sleep ys"
  by (simp add: total_sleep_def)

lemma total_sleep_Cons [simp]: "total_sleep (a # as) = sleep_of a + total_sleep as"
  by (simp add: total_sleep_def)

lemma outcome_pids_logger [simp]:
  "outcome_pids (logger l m st) = outcome_pids st + mset (map fst (log_outcome (l, m)))"
  by (simp add: outcome_pids_def outcomes_def)

lemma outcome_pids_act [simp]:
  "outcome_pids (act a st) = outcome_pids st + mset (map fst (action_outcome a))"
  by (simp add: outcome_pids_def outcomes_def)

lemma signal_process_actions:
  "actions (fst (signal_process e proc st)) =
     actions st @
       (let sig = interrupt_signal (os_name e);
            r = send_signal e (actions st) (pid proc) sig;
            sent = Send_signal (pid proc) sig r
        in if r = Ok then [sent, Sleep 2]
           else if os_name e = Unix \<or> r = OSError \<or> r = AccessDenied
           then [sent, Terminate (pid proc) (terminate e (actions st @ [sent]) (pid proc))]
           else [sent])"
  by (cases "os_name e";
      cases "send_signal e (actions st) (pid proc) (interrupt_signal (os_name e))")
     (auto simp: signal_process_def terminate_fallback_def interrupt_signal_def Let_def
           split: call_result.splits)

lemma signal_process_appended:
  "snd (signal_process e proc st) =
     (let sig = interrupt_signal (os_name e);
          r = send_signal e (actions st) (pid proc) sig;
          sent = Send_signal (pid proc) sig r
      in if r = Ok then is_running e (actions st @ [sent, Sleep 2]) (pid proc)
         else if os_name e = Unix \<or> r = OSError \<or> r = AccessDenied
         then terminate e (actions st @ [sent]) (pid proc) = Ok
         else False)"
  by (cases "os_name e";
      cases "send_signal e (actions st) (pid proc) (interrupt_signal (os_name e))")
     (auto simp: signal_process_def terminate_fallback_def interrupt_signal_def Let_def
           split: call_result.splits)

lemma signal_process_prefix: "prefix (actions st) (actions (fst (signal_process e proc st)))"
  by (simp add: signal_process_actions)

lemma signal_process_sleep:
  "total_sleep (actions (fst (signal_process e proc st))) \<le> total_sleep (actions st) + 2"
  by (simp add: signal_process_actions Let_def)

lemma signal_process_outcome:
  "outcome_pids (fst (signal_process e proc st))
     + (if snd (signal_process e proc st) then {#pid proc#} else {#})
   = outcome_pids st + {#pid proc#}"
  by (cases "os_name e";
      cases "send_signal e (actions st) (pid proc) (interrupt_signal (os_name e))")
     (auto simp: signal_process_def terminate_fallback_def interrupt_signal_def Let_def
           split: call_result.splits)


lemma interrupt_phase_prefix:
  "prefix (actions st) (actions (snd (interrupt_phase e procs terminated st)))"
proof (induction procs arbitrary: terminated st)
  case Nil
  then show ?case by simp
next
  case (Cons proc rest)
  have "prefix (actions st) (actions (fst (signal_process e proc st)))"
    by (rule signal_process_prefix)
  also have "prefix \<dots> (actions (snd (interrupt_phase e (proc # rest) terminated st)))"
    using Cons.IH by (simp add: case_prod_beta)
  finally show ?case .
qed

lemma interrupt_phase_sleep:
  "total_sleep (actions (snd (interrupt_phase e procs terminated st)))
     \<le> total_sleep (actions st) + 2 * int (length procs)"
proof (induction procs arbitrary: terminated st)
  case Nil
  then show ?case by simp
next
  case (Cons proc rest)
  let ?st1 = "fst (signal_process e proc st)"
  let ?t1 = "if snd (signal_process e proc st) then terminated @ [proc] else terminated"
  have "total_sleep (actions (snd (interrupt_phase e (proc # rest) terminated st)))
          = total_sleep (actions (snd (interrupt_phase e rest ?t1 ?st1)))"
    by (simp add: case_prod_beta)
  also have "\<dots> \<le> total_sleep (actions ?st1) + 2 * int (length rest)"
    by (rule Cons.IH)
  also have "\<dots> \<le> total_sleep (actions st) + 2 + 2 * int (length rest)"
    using signal_process_sleep [of e proc st] by simp
  finally show ?case by simp
qed

lemma interrupt_phase_outcome:
  "outcome_pids (snd (interrupt_phase e procs terminated st))
     + mset (map pid (fst (interrupt_phase e procs terminated st)))
   = outcome_pids st + mset (map pid terminated) + mset (map pid procs)"
proof (induction procs arbitrary: terminated st)
  case Nil
  then show ?case by simp
next
  case (Cons proc rest)
  let ?st1 = "fst (signal_process e proc st)"
  let ?t1 = "if snd (signal_process e proc st) then terminated @ [proc] else terminated"
  have "outcome_pids (snd (interrupt_phase e (proc # rest) terminated st))
          + mset (map pid (fst (interrupt_phase e (proc # rest) terminated st)))
        = outcome_pids ?st1 + mset (map pid ?t1) + mset (map pid rest)"
    using Cons.IH [of ?t1 ?st1] by (simp add: case_prod_beta)
  also have "\<dots> = (outcome_pids ?st1 + (if snd (signal_process e proc st) then {#pid proc#} else {#}))
                    + mset (map pid terminated) + mset (map pid rest)"
    by simp
  also have "\<dots> = outcome_pids st + {#pid proc#} + mset (map pid terminated) + mset (map pid rest)"
    by (simp only: signal_process_outcome)
  finally show ?case by simp
qed

lemma countdown_nobody_running:
  "\<forall>proc \<in> set ps. \<not> is_running e (actions st) (pid proc) \<Longrightarrow>
   actions (countdown e ps remaining st) = actions st"
  by (subst countdown.simps) (simp add: filter_empty_conv Let_def)

lemma countdown_prefix: "prefix (actions st) (actions (countdown e ps remaining st))"
proof (induction e ps remaining st rule: countdown.induct)
  case (1 e ps remaining st)
  show ?case
  proof (cases "remaining \<le> 0 \<or> filter (\<lambda>proc. is_running e (actions st) (pid proc)) ps = []")
    case True
    then show ?thesis by (subst countdown.simps) (auto simp: Let_def)
  next
    case False
    let ?n = "length (filter (\<lambda>proc. is_running e (actions st) (pid proc)) ps)"
    let ?st1 = "act (Sleep 5) (logger INFO (Still_waiting ?n remaining) st)"
    from False have eq: "countdown e ps remaining st = countdown e ps (remaining - 5) ?st1"
      by (subst countdown.simps) (simp add: Let_def)
    have "prefix (actions st) (actions ?st1)" by simp
    also have "prefix \<dots> (actions (countdown e ps (remaining - 5) ?st1))"
      using False by (intro "1.IH") (auto simp: Let_def)
    finally show ?thesis by (simp add: eq)
  qed
qed

lemma countdown_sleep:
  "total_sleep (actions (countdown e ps remaining st))
     \<le> total_sleep (actions st) + max 0 (5 * ((remaining + 4) div 5))"
proof (induction e ps remaining st rule: countdown.induct)
  case (1 e ps remaining st)
  show ?case
  proof (cases "remaining \<le> 0 \<or> filter (\<lambda>proc. is_running e (actions st) (pid proc)) ps = []")
    case True
    then show ?thesis by (subst countdown.simps) (auto simp: Let_def)
  next
    case False
    let ?n = "length (filter (\<lambda>proc. is_running e (actions st) (pid proc)) ps)"
    let ?st1 = "act (Sleep 5) (logger INFO (Still_waiting ?n remaining) st)"
    from False have eq: "countdown e ps remaining st = countdown e ps (remaining - 5) ?st1"
      by (subst countdown.simps) (simp add: Let_def)
    have "total_sleep (actions (countdown e ps (remaining - 5) ?st1))
            \<le> total_sleep (actions ?st1) + max 0 (5 * ((remaining - 5 + 4) div 5))"
      using False by (intro "1.IH") (auto simp: Let_def)
    moreover have "total_sleep (actions ?st1) = total_sleep (actions st) + 5" by simp
    moreover have "5 + max 0 (5 * ((remaining - 5 + 4) div 5))
                     \<le> max 0 (5 * ((remaining + 4) div 5))"
    proof -
      from False have "0 \<le> remaining - 1" by simp
      then have "0 \<le> (remaining - 1) div 5" by (simp add: pos_imp_zdiv_nonneg_iff)
      moreover have "(remaining + 4) div 5 = (remaining - 1) div 5 + 1" by presburger
      ultimately show ?thesis by simp
    qed
    ultimately show ?thesis unfolding eq by linarith
  qed
qed

lemma countdown_outcome: "outcome_pids (countdown e ps remaining st) = outcome_pids st"
proof (induction e ps remaining st rule: countdown.induct)
  case (1 e ps remaining st)
  show ?case
  proof (cases "remaining \<le> 0 \<or> filter (\<lambda>proc. is_running e (actions st) (pid proc)) ps = []")
    case True
    then show ?thesis by (subst countdown.simps) (auto simp: Let_def)
  next
    case False
    let ?n = "length (filter (\<lambda>proc. is_running e (actions st) (pid proc)) ps)"
    let ?st1 = "act (Sleep 5) (logger INFO (Still_waiting ?n remaining) st)"
    from False have eq: "countdown e ps remaining st = countdown e ps (remaining - 5) ?st1"
      by (subst countdown.simps) (simp add: Let_def)
    have "outcome_pids (countdown e ps (remaining - 5) ?st1) = outcome_pids ?st1"
      using False by (intro "1.IH") (auto simp: Let_def)
    then show ?thesis by (simp add: eq)
  qed
qed

lemma grace_wait_prefix: "prefix (actions st) (actions (snd (grace_wait cfg e ps st)))"
proof (cases "ps = []")
  case True
  then show ?thesis by (simp add: grace_wait_def)
next
  case False
  let ?st1 = "logger INFO (Waiting_for_grace (grace_period cfg) (length ps)) st"
  have "prefix (actions ?st1) (actions (countdown e ps (grace_period cfg) ?st1))"
    by (rule countdown_prefix)
  with False show ?thesis
    by (auto simp: grace_wait_def Let_def prefix_def)
qed

lemma grace_wait_sleep:
  "total_sleep (actions (snd (grace_wait cfg e ps st)))
     \<le> total_sleep (actions st) + max 0 (5 * ((grace_period cfg + 4) div 5))"
proof (cases "ps = []")
  case True
  then show ?thesis by (simp add: grace_wait_def)
next
  case False
  let ?st1 = "logger INFO (Waiting_for_grace (grace_period cfg) (length ps)) st"
  have "total_sleep (actions (countdown e ps (grace_period cfg) ?st1))
          \<le> total_sleep (actions ?st1) + max 0 (5 * ((grace_period cfg + 4) div 5))"
    by (rule countdown_sleep)
  with False show ?thesis
    by (simp add: grace_wait_def Let_def)
qed

lemma grace_wait_nobody_running:
  assumes "\<forall>proc \<in> set ps. \<not> is_running e (actions st) (pid proc)"
  shows "total_sleep (actions (snd (grace_wait cfg e ps st))) = total_sleep (actions st)"
proof (cases "ps = []")
  case True
  then show ?thesis by (simp add: grace_wait_def)
next
  case False
  let ?st1 = "logger INFO (Waiting_for_grace (grace_period cfg) (length ps)) st"
  from assms have "actions (countdown e ps (grace_period cfg) ?st1) = actions ?st1"
    by (intro countdown_nobody_running) simp
  with False show ?thesis
    by (simp add: grace_wait_def Let_def)
qed

lemma mset_pid_partition:
  "mset (map pid (filter (\<lambda>proc. \<not> P proc) ps)) + mset (map pid (filter P ps))
   = mset (map pid ps)"
  by (induction ps) auto

lemma grace_wait_outcome:
  "outcome_pids (snd (grace_wait cfg e ps st)) + mset (map pid (fst (grace_wait cfg e ps st)))
   = outcome_pids st + mset (map pid ps)"
proof (cases "ps = []")
  case True
  then show ?thesis by (simp add: grace_wait_def)
next
  case False
  let ?st1 = "logger INFO (Waiting_for_grace (grace_period cfg) (length ps)) st"
  let ?st2 = "countdown e ps (grace_period cfg) ?st1"
  let ?P = "\<lambda>proc. still_alive e (actions ?st2) (pid proc)"
  have "outcome_pids ?st2 = outcome_pids st"
    by (simp add: countdown_outcome)
  moreover have "mset (map pid (filter (\<lambda>proc. \<not> ?P proc) ps)) + mset (map pid (filter ?P ps))
                   = mset (map pid ps)"
    by (rule mset_pid_partition)
  ultimately show ?thesis using False
    by (simp add: grace_wait_def Let_def comp_def)
qed

lemma kill_loop_prefix: "prefix (actions st) (actions (kill_loop e alive st))"
proof (induction alive arbitrary: st)
  case Nil
  then show ?case by simp
next
  case (Cons proc rest)
  let ?r = "kill e (actions st) (pid proc)"
  let ?st1 = "act (Kill (pid proc) ?r) st"
  let ?st2 = "case ?r of Ok \<Rightarrow> logger INFO (Force_killed (pid proc)) ?st1
                        | _ \<Rightarrow> logger ERROR (Error_force_killing (pid proc)) ?st1"
  have a: "actions ?st2 = actions st @ [Kill (pid proc) ?r]"
    by (cases ?r) simp_all
  have "prefix (actions st) (actions ?st2)" by (simp add: a)
  also have "prefix \<dots> (actions (kill_loop e rest ?st2))" by (rule Cons.IH)
  finally show ?case by (simp add: Let_def)
qed

lemma kill_loop_sleep: "total_sleep (actions (kill_loop e alive st)) = total_sleep (actions st)"
proof (induction alive arbitrary: st)
  case Nil
  then show ?case by simp
next
  case (Cons proc rest)
  let ?r = "kill e (actions st) (pid proc)"
  let ?st1 = "act (Kill (pid proc) ?r) st"
  let ?st2 = "case ?r of Ok \<Rightarrow> logger INFO (Force_killed (pid proc)) ?st1
                        | _ \<Rightarrow> logger ERROR (Error_force_killing (pid proc)) ?st1"
  have a: "actions ?st2 = actions st @ [Kill (pid proc) ?r]"
    by (cases ?r) simp_all
  have "total_sleep (actions (kill_loop e rest ?st2)) = total_sleep (actions ?st2)"
    by (rule Cons.IH)
  then show ?case by (simp add: Let_def a)
qed

lemma kill_loop_outcome:
  "outcome_pids (kill_loop e alive st) = outcome_pids st + mset (map pid alive)"
proof (induction alive arbitrary: st)
  case Nil
  then show ?case by simp
next
  case (Cons proc rest)
  let ?r = "kill e (actions st) (pid proc)"
  let ?st1 = "act (Kill (pid proc) ?r) st"
  let ?st2 = "case ?r of Ok \<Rightarrow> logger INFO (Force_killed (pid proc)) ?st1
                        | _ \<Rightarrow> logger ERROR (Error_force_killing (pid proc)) ?st1"
  have a: "outcome_pids ?st2 = outcome_pids st + {#pid proc#}"
    by (cases ?r) simp_all
  have "outcome_pids (kill_loop e rest ?st2) = outcome_pids ?st2 + mset (map pid rest)"
    by (rule Cons.IH)
  then show ?case by (simp add: Let_def a)
qed

lemma force_kill_prefix: "prefix (actions st) (actions (force_kill e alive st))"
  using kill_loop_prefix [of "logger WARNING (Force_killing (length alive)) st" e alive]
  by (simp add: force_kill_def)

lemma force_kill_sleep: "total_sleep (actions (force_kill e alive st)) = total_sleep (actions st)"
  by (simp add: force_kill_def kill_loop_sleep)

lemma force_kill_outcome:
  "outcome_pids (force_kill e alive st) = outcome_pids st + mset (map pid alive)"
  by (simp add: force_kill_def kill_loop_outcome)

text \<open>The orchestration unfolded into its three phases.\<close>

lemma graceful_shutdown_trex_phases:
  assumes "processes \<noteq> []"
  shows "snd (graceful_shutdown_trex cfg e processes st) =
     (let r1 = interrupt_phase e processes [] (logger WARNING (Initiating_shutdown (length processes)) st);
          r2 = grace_wait cfg e (fst r1) (snd r1)
      in logger INFO Shutdown_completed (force_kill e (fst r2) (snd r2)))"
  using assms by (simp add: graceful_shutdown_trex_def Let_def case_prod_beta)

lemma graceful_shutdown_trex_True: "fst (graceful_shutdown_trex cfg e processes st) = True"
  by (simp add: graceful_shutdown_trex_def Let_def case_prod_beta)

lemma graceful_shutdown_trex_prefix:
  "prefix (actions st) (actions (snd (graceful_shutdown_trex cfg e processes st)))"
proof (cases "processes = []")
  case True
  then show ?thesis by (simp add: graceful_shutdown_trex_def)
next
  case False
  let ?st1 = "logger WARNING (Initiating_shutdown (length processes)) st"
  let ?r1 = "interrupt_phase e processes [] ?st1"
  let ?r2 = "grace_wait cfg e (fst ?r1) (snd ?r1)"
  have "prefix (actions st) (actions (snd ?r1))"
    using interrupt_phase_prefix [of ?st1 e processes "[]"] by simp
  also have "prefix \<dots> (actions (snd ?r2))" by (rule grace_wait_prefix)
  also have "prefix \<dots> (actions (force_kill e (fst ?r2) (snd ?r2)))" by (rule force_kill_prefix)
  finally show ?thesis using False by (simp add: graceful_shutdown_trex_phases Let_def)
qed

lemma graceful_shutdown_trex_sleep:
  "total_sleep (actions (snd (graceful_shutdown_trex cfg e processes st)))
     \<le> total_sleep (actions st) + 2 * int (length processes)
          + max 0 (5 * ((grace_period cfg + 4) div 5))"
proof (cases "processes = []")
  case True
  then show ?thesis by (simp add: graceful_shutdown_trex_def)
next
  case False
  let ?st1 = "logger WARNING (Initiating_shutdown (length processes)) st"
  let ?r1 = "interrupt_phase e processes [] ?st1"
  let ?r2 = "grace_wait cfg e (fst ?r1) (snd ?r1)"
  have "total_sleep (actions (snd ?r1)) \<le> total_sleep (actions st) + 2 * int (length processes)"
    using interrupt_phase_sleep [of e processes "[]" ?st1] by simp
  moreover have "total_sleep (actions (snd ?r2))
                   \<le> total_sleep (actions (snd ?r1)) + max 0 (5 * ((grace_period cfg + 4) div 5))"
    by (rule grace_wait_sleep)
  ultimately show ?thesis using False
    by (simp add: graceful_shutdown_trex_phases Let_def force_kill_sleep)
qed

lemma graceful_shutdown_trex_outcome:
  "outcome_pids (snd (graceful_shutdown_trex cfg e processes st))
   = outcome_pids st + mset (map pid processes)"
proof (cases "processes = []")
  case True
  then show ?thesis by (simp add: graceful_shutdown_trex_def)
next
  case False
  let ?st1 = "logger WARNING (Initiating_shutdown (length processes)) st"
  let ?r1 = "interrupt_phase e processes [] ?st1"
  let ?r2 = "grace_wait cfg e (fst ?r1) (snd ?r1)"
  have "outcome_pids (snd ?r1) + mset (map pid (fst ?r1)) = outcome_pids st + mset (map pid processes)"
    using interrupt_phase_outcome [of e processes "[]" ?st1] by simp
  moreover have "outcome_pids (snd ?r2) + mset (map pid (fst ?r2))
                   = outcome_pids (snd ?r1) + mset (map pid (fst ?r1))"
    by (rule grace_wait_outcome)
  ultimately show ?thesis using False
    by (simp add: graceful_shutdown_trex_phases Let_def force_kill_outcome)
qed

text \<open>
  The whole orchestration sleeps at most 2 seconds for each target, plus the countdown, which
  sleeps in steps of 5 seconds: up to the grace period rounded up to a multiple of 5.
\<close>

lemma countdown_sleep_multiple_of_5:
  "0 \<le> g \<Longrightarrow> g mod 5 = 0 \<Longrightarrow>
   total_sleep (actions (countdown e ps g st)) \<le> total_sleep (actions st) + g"
proof -
  assume "0 \<le> g" "g mod 5 = 0"
  then have "max 0 (5 * ((g + 4) div 5)) = g" by presburger
  with countdown_sleep [of e ps g st] show ?thesis by simp
qed

text \<open>
  C1. The claim: the polling wait never blocks past the grace period \<open>g\<close>. The countdown of
  lines 189--195 sleeps 5 seconds in every round, also when fewer than 5 seconds remain
  (the log line of that round says how many). With \<open>g = 7\<close> and one process that ignores
  the interrupt, the wait sleeps 10 seconds; the process is then killed.
\<close>

theorem grace_wait_overshoots:
  "grace_period (Config_default\<lparr>grace_period := 7\<rparr>) = 7
   \<and> actions (snd (graceful_shutdown_trex (Config_default\<lparr>grace_period := 7\<rparr>)
                     (constant_env Unix ''90'' [miner] Ok Ok True) [miner] initial))
       = [Send_signal 1 SIGINT Ok, Sleep 2, Sleep 5, Sleep 5, Wait_procs [] [1], Kill 1 Ok]
   \<and> total_sleep (actions (countdown (constant_env Unix ''90'' [miner] Ok Ok True) [miner] 7 initial))
       = 10"
  by code_simp

text \<open>
  C6, as stated: whenever the interrupt cannot be delivered, also when the process vanished
  during the send, terminate is sent at once. On Windows a send that raises
  \<^verbatim>\<open>NoSuchProcess\<close> goes to the handler of line 179: the process is logged as already
  terminated and no terminate is sent.
\<close>

theorem interrupt_failure_counterexample:
  "send_signal (constant_env Windows ''90'' [miner] NoSuchProcess Ok True) (actions initial)
       (pid miner) CTRL_C_EVENT \<noteq> Ok
   \<and> actions (fst (signal_process (constant_env Windows ''90'' [miner] NoSuchProcess Ok True)
                     miner initial))
       = [Send_signal 1 CTRL_C_EVENT NoSuchProcess]"
  by code_simp

lemma signal_process_logs:
  "logs (fst (signal_process e proc st)) =
     logs st @
     (let sig = interrupt_signal (os_name e);
          r = send_signal e (actions st) (pid proc) sig;
          sent = Send_signal (pid proc) sig r;
          t = terminate e (actions st @ [sent]) (pid proc);
          running = is_running e (actions st @ [sent, Sleep 2]) (pid proc)
      in (INFO, Sending_graceful_signal (pid proc)) #
         (if os_name e = Windows then [(INFO, Sending_ctrl_c (pid proc))] else []) @
         (if r = Ok then
            (if running
             then (if os_name e = Windows
                   then [(INFO, Still_running_after_ctrl_c (pid proc))] else [])
             else [(INFO, if os_name e = Windows then Shut_down_via_ctrl_c (pid proc)
                          else Shut_down_via_sigint (pid proc))])
          else if os_name e = Unix \<or> r = OSError \<or> r = AccessDenied then
            (if os_name e = Windows then [(WARNING, Ctrl_c_failed (pid proc))] else []) @
            (if t = Ok then []
             else if t = NoSuchProcess then [(INFO, Already_terminated (pid proc))]
             else [(ERROR, Error_terminating (pid proc))])
          else if r = NoSuchProcess then [(INFO, Already_terminated (pid proc))]
          else [(ERROR, Error_terminating (pid proc))]))"
  by (cases "os_name e";
      cases "send_signal e (actions st) (pid proc) (interrupt_signal (os_name e))")
     (auto simp: signal_process_def terminate_fallback_def interrupt_signal_def Let_def
           split: call_result.splits)

text \<open>
  C6, amended. What one pass of the loop does to a process, by the result \<open>r\<close> of sending the
  interrupt. After a successful send it sleeps 2 seconds and then checks liveness. After a
  failed send it sends terminate at once (no sleep, no second interrupt) on a Unix-like
  platform for every failure, and on Windows for \<^verbatim>\<open>OSError\<close> and \<^verbatim>\<open>AccessDenied\<close>. On
  Windows a send that raises \<^verbatim>\<open>NoSuchProcess\<close> is logged as already terminated, and one
  that raises any other exception is logged as an error; no terminate is sent in either
  case. The process is waited for afterwards exactly when it was still running after the
  settle delay, or when terminate succeeded. The third equation lists every log line of the
  pass.
\<close>

theorem interrupt_failure_escalates:
  "new_actions st (fst (signal_process e proc st)) =
     (let sig = interrupt_signal (os_name e);
          r = send_signal e (actions st) (pid proc) sig;
          sent = Send_signal (pid proc) sig r
      in if r = Ok then [sent, Sleep 2]
         else if os_name e = Unix \<or> r = OSError \<or> r = AccessDenied
         then [sent, Terminate (pid proc) (terminate e (actions st @ [sent]) (pid proc))]
         else [sent])
   \<and> snd (signal_process e proc st) =
     (let sig = interrupt_signal (os_name e);
          r = send_signal e (actions st) (pid proc) sig;
          sent = Send_signal (pid proc) sig r
      in if r = Ok then is_running e (actions st @ [sent, Sleep 2]) (pid proc)
         else if os_name e = Unix \<or> r = OSError \<or> r = AccessDenied
         then terminate e (actions st @ [sent]) (pid proc) = Ok
         else False)
   \<and> new_logs st (fst (signal_process e proc st)) =
     (let sig = interrupt_signal (os_name e);
          r = send_signal e (actions st) (pid proc) sig;
          sent = Send_signal (pid proc) sig r;
          t = terminate e (actions st @ [sent]) (pid proc);
          running = is_running e (actions st @ [sent, Sleep 2]) (pid proc)
      in (INFO, Sending_graceful_signal (pid proc)) #
         (if os_name e = Windows then [(INFO, Sending_ctrl_c (pid proc))] else []) @
         (if r = Ok then
            (if running
             then (if os_name e = Windows
                   then [(INFO, Still_running_after_ctrl_c (pid proc))] else [])
             else [(INFO, if os_name e = Windows then Shut_down_via_ctrl_c (pid proc)
                          else Shut_down_via_sigint (pid proc))])
          else if os_name e = Unix \<or> r = OSError \<or> r = AccessDenied then
            (if os_name e = Windows then [(WARNING, Ctrl_c_failed (pid proc))] else []) @
            (if t = Ok then []
             else if t = NoSuchProcess then [(INFO, Already_terminated (pid proc))]
             else [(ERROR, Error_terminating (pid proc))])
          else if r = NoSuchProcess then [(INFO, Already_terminated (pid proc))]
          else [(ERROR, Error_terminating (pid proc))]))"
  by (simp add: new_actions_def new_logs_def signal_process_actions signal_process_appended
        signal_process_logs)

theorem interrupt_failure_escalates_witness:
  "new_actions initial
     (fst (signal_process (constant_env Unix ''90'' [miner] AccessDenied Ok True) miner initial))
     = [Send_signal 1 SIGINT AccessDenied, Terminate 1 Ok]
   \<and> new_actions initial
     (fst (signal_process (constant_env Windows ''90'' [miner] OSError Ok True) miner initial))
     = [Send_signal 1 CTRL_C_EVENT OSError, Terminate 1 Ok]
   \<and> new_actions initial
     (fst (signal_process (constant_env Unix ''90'' [miner] Ok Ok True) miner initial))
     = [Send_signal 1 SIGINT Ok, Sleep 2]
   \<and> new_actions initial
     (fst (signal_process (constant_env Windows ''90'' [miner] NoSuchProcess Ok True) miner initial))
     = [Send_signal 1 CTRL_C_EVENT NoSuchProcess]
   \<and> new_logs initial
     (fst (signal_process (constant_env Windows ''90'' [miner] NoSuchProcess Ok True) miner initial))
     = [(INFO, Sending_graceful_signal 1), (INFO, Sending_ctrl_c 1), (INFO, Already_terminated 1)]
   \<and> new_logs initial
     (fst (signal_process (constant_env Windows ''90'' [miner] Other_error Ok True) miner initial))
     = [(INFO, Sending_graceful_signal 1), (INFO, Sending_ctrl_c 1), (ERROR, Error_terminating 1)]"
  using interrupt_failure_escalates [of initial "constant_env Unix ''90'' [miner] AccessDenied Ok True" miner]
    interrupt_failure_escalates [of initial "constant_env Windows ''90'' [miner] OSError Ok True" miner]
    interrupt_failure_escalates [of initial "constant_env Unix ''90'' [miner] Ok Ok True" miner]
    interrupt_failure_escalates [of initial "constant_env Windows ''90'' [miner] NoSuchProcess Ok True" miner]
    interrupt_failure_escalates [of initial "constant_env Windows ''90'' [miner] Other_error Ok True" miner]
  by (simp add: constant_env_def miner_def interrupt_signal_def initial_def)

text \<open>
  A round of the countdown that finds no process running ends the wait: if no process is
  running once \<open>j\<close> rounds have slept, the countdown sleeps at most \<open>j\<close> rounds, and does
  nothing else to the outside world.
\<close>

lemma countdown_exits_at_quiet_round:
  "\<forall>proc \<in> set ps. \<not> is_running e (actions st @ replicate j (Sleep 5)) (pid proc) \<Longrightarrow>
   \<exists>k \<le> j. actions (countdown e ps remaining st) = actions st @ replicate k (Sleep 5)"
proof (induction e ps remaining st arbitrary: j rule: countdown.induct)
  case (1 e ps remaining st)
  show ?case
  proof (cases "remaining \<le> 0 \<or> filter (\<lambda>proc. is_running e (actions st) (pid proc)) ps = []")
    case True
    then have "actions (countdown e ps remaining st) = actions st @ replicate 0 (Sleep 5)"
      by (subst countdown.simps) (auto simp: Let_def)
    then show ?thesis by blast
  next
    case False
    let ?n = "length (filter (\<lambda>proc. is_running e (actions st) (pid proc)) ps)"
    let ?st1 = "act (Sleep 5) (logger INFO (Still_waiting ?n remaining) st)"
    from False have eq: "countdown e ps remaining st = countdown e ps (remaining - 5) ?st1"
      by (subst countdown.simps) (simp add: Let_def)
    from False obtain proc where "proc \<in> set ps" "is_running e (actions st) (pid proc)"
      by (auto simp: filter_empty_conv)
    with "1.prems" have "j \<noteq> 0" by (cases j) auto
    then obtain j' where j: "j = Suc j'" by (cases j) auto
    have "\<forall>proc \<in> set ps. \<not> is_running e (actions ?st1 @ replicate j' (Sleep 5)) (pid proc)"
      using "1.prems" by (simp add: j)
    with False obtain k where
      k: "k \<le> j'" "actions (countdown e ps (remaining - 5) ?st1)
                      = actions ?st1 @ replicate k (Sleep 5)"
      using "1.IH" [of ?n j'] by (auto simp: Let_def)
    then have "Suc k \<le> j"
      "actions (countdown e ps remaining st) = actions st @ replicate (Suc k) (Sleep 5)"
      by (simp_all add: eq j)
    then show ?thesis by blast
  qed
qed

lemma grace_wait_quiet_round:
  assumes "\<forall>proc \<in> set ps. \<not> is_running e (actions st @ replicate j (Sleep 5)) (pid proc)"
  shows "total_sleep (actions (snd (grace_wait cfg e ps st))) \<le> total_sleep (actions st) + 5 * int j"
proof (cases "ps = []")
  case True
  then show ?thesis by (simp add: grace_wait_def)
next
  case False
  let ?st1 = "logger INFO (Waiting_for_grace (grace_period cfg) (length ps)) st"
  from assms obtain k where "k \<le> j"
    "actions (countdown e ps (grace_period cfg) ?st1) = actions ?st1 @ replicate k (Sleep 5)"
    using countdown_exits_at_quiet_round [of ps e ?st1 j "grace_period cfg"] by auto
  moreover have "total_sleep (replicate k (Sleep 5)) = 5 * int k"
    by (induction k) simp_all
  ultimately show ?thesis using False
    by (simp add: grace_wait_def Let_def)
qed

text \<open>
  C7. If no process of \<^verbatim>\<open>terminated_processes\<close> is running when the interrupt phase ends
  (the list is empty when all of them exited during the settle delay), the orchestration
  sleeps no longer than the interrupt phase did: the wait adds nothing. More generally the
  wait ends at the first round that finds no process running: if none is running after
  \<open>j\<close> rounds of 5 seconds, the orchestration sleeps at most \<open>5 j\<close> seconds after the interrupt
  phase, whatever the grace period, and the countdown adds at most \<open>j\<close> sleeps and no other
  action.
\<close>

theorem no_wait_when_all_exited:
  "(processes \<noteq> []
      \<and> interrupt_phase e processes [] (logger WARNING (Initiating_shutdown (length processes)) st)
          = (terminated, st2)
      \<and> (\<forall>proc \<in> set terminated. \<not> is_running e (actions st2) (pid proc))
    \<longrightarrow> total_sleep (actions (snd (graceful_shutdown_trex cfg e processes st)))
          = total_sleep (actions st2))
   \<and> (processes \<noteq> []
      \<and> interrupt_phase e processes [] (logger WARNING (Initiating_shutdown (length processes)) st)
          = (terminated, st2)
      \<and> (\<forall>proc \<in> set terminated.
            \<not> is_running e (actions st2 @ replicate j (Sleep 5)) (pid proc))
    \<longrightarrow> total_sleep (actions (snd (graceful_shutdown_trex cfg e processes st)))
          \<le> total_sleep (actions st2) + 5 * int j)
   \<and> ((\<forall>proc \<in> set ps. \<not> is_running e (actions st' @ replicate j (Sleep 5)) (pid proc))
    \<longrightarrow> (\<exists>k \<le> j. actions (countdown e ps remaining st')
                     = actions st' @ replicate k (Sleep 5)))"
proof (intro conjI impI)
  assume "processes \<noteq> []
      \<and> interrupt_phase e processes [] (logger WARNING (Initiating_shutdown (length processes)) st)
          = (terminated, st2)
      \<and> (\<forall>proc \<in> set terminated. \<not> is_running e (actions st2) (pid proc))"
  then show "total_sleep (actions (snd (graceful_shutdown_trex cfg e processes st)))
               = total_sleep (actions st2)"
    by (simp add: graceful_shutdown_trex_phases Let_def force_kill_sleep
          grace_wait_nobody_running)
next
  assume "processes \<noteq> []
      \<and> interrupt_phase e processes [] (logger WARNING (Initiating_shutdown (length processes)) st)
          = (terminated, st2)
      \<and> (\<forall>proc \<in> set terminated.
            \<not> is_running e (actions st2 @ replicate j (Sleep 5)) (pid proc))"
  then show "total_sleep (actions (snd (graceful_shutdown_trex cfg e processes st)))
               \<le> total_sleep (actions st2) + 5 * int j"
    by (simp add: graceful_shutdown_trex_phases Let_def force_kill_sleep
          grace_wait_quiet_round)
next
  assume "\<forall>proc \<in> set ps. \<not> is_running e (actions st' @ replicate j (Sleep 5)) (pid proc)"
  then show "\<exists>k \<le> j. actions (countdown e ps remaining st')
                       = actions st' @ replicate k (Sleep 5)"
    by (rule countdown_exits_at_quiet_round)
qed

theorem no_wait_when_all_exited_witness:
  "interrupt_phase (constant_env Unix ''90'' [miner] AccessDenied Ok False) [miner] []
        (logger WARNING (Initiating_shutdown (length [miner])) initial)
      = ([miner],
         \<lparr>actions = [Send_signal 1 SIGINT AccessDenied, Terminate 1 Ok],
          logs = [(WARNING, Initiating_shutdown 1), (INFO, Sending_graceful_signal 1)]\<rparr>)
   \<and> total_sleep (actions (snd (graceful_shutdown_trex Config_default
        (constant_env Unix ''90'' [miner] AccessDenied Ok False) [miner] initial))) = 0
   \<and> interrupt_phase fading_env [miner] []
        (logger WARNING (Initiating_shutdown (length [miner])) initial)
      = ([miner],
         \<lparr>actions = [Send_signal 1 SIGINT Ok, Sleep 2],
          logs = [(WARNING, Initiating_shutdown 1), (INFO, Sending_graceful_signal 1)]\<rparr>)
   \<and> is_running fading_env [Send_signal 1 SIGINT Ok, Sleep 2, Sleep 5] (pid miner)
   \<and> \<not> is_running fading_env [Send_signal 1 SIGINT Ok, Sleep 2, Sleep 5, Sleep 5] (pid miner)
   \<and> grace_period Config_default = 30
   \<and> total_sleep (actions (snd (graceful_shutdown_trex Config_default fading_env [miner] initial)))
       \<le> 12"
proof -
  let ?e = "constant_env Unix ''90'' [miner] AccessDenied Ok False"
  let ?st2 = "\<lparr>actions = [Send_signal 1 SIGINT AccessDenied, Terminate 1 Ok],
          logs = [(WARNING, Initiating_shutdown 1), (INFO, Sending_graceful_signal 1)]\<rparr>"
  let ?st2' = "\<lparr>actions = [Send_signal 1 SIGINT Ok, Sleep 2],
          logs = [(WARNING, Initiating_shutdown 1), (INFO, Sending_graceful_signal 1)]\<rparr>"
  have n: "[miner] \<noteq> []" by simp
  have i: "interrupt_phase ?e [miner] []
             (logger WARNING (Initiating_shutdown (length [miner])) initial) = ([miner], ?st2)"
    by code_simp
  have r: "\<forall>proc \<in> set [miner]. \<not> is_running ?e (actions ?st2) (pid proc)"
    by (simp add: constant_env_def)
  have a: "total_sleep (actions (snd (graceful_shutdown_trex Config_default ?e [miner] initial))) = 0"
    using no_wait_when_all_exited
            [of "[miner]" ?e initial "[miner]" ?st2 Config_default, THEN conjunct1] n i r
    by simp
  have i': "interrupt_phase fading_env [miner] []
             (logger WARNING (Initiating_shutdown (length [miner])) initial) = ([miner], ?st2')"
    by code_simp
  have q: "is_running fading_env [Send_signal 1 SIGINT Ok, Sleep 2, Sleep 5] (pid miner)"
          "\<not> is_running fading_env [Send_signal 1 SIGINT Ok, Sleep 2, Sleep 5, Sleep 5] (pid miner)"
    by (simp_all add: fading_env_def)
  then have r': "\<forall>proc \<in> set [miner].
           \<not> is_running fading_env (actions ?st2' @ replicate 2 (Sleep 5)) (pid proc)"
    by (simp add: numeral_2_eq_2)
  have b: "total_sleep (actions (snd (graceful_shutdown_trex Config_default fading_env [miner] initial)))
             \<le> 12"
    using no_wait_when_all_exited
            [of "[miner]" fading_env initial "[miner]" ?st2' Config_default 2,
             THEN conjunct2, THEN conjunct1] n i' r'
    by simp
  have g: "grace_period Config_default = 30" by (simp add: Config_default_def)
  from i a i' q g b show ?thesis by simp
qed

lemma length_filter_pid:
  "length (filter (\<lambda>(q, s). q = p) xs) = count (mset (map fst xs)) p"
  by (induction xs) auto

lemma outcome_pids_initial [simp]: "outcome_pids initial = {#}"
  by (simp add: outcome_pids_def outcomes_def initial_def)

text \<open>
  C5, as stated: the orchestration returns outcome records, and every target ends in one
  of the four states \<open>gracefullyExited\<close>, \<open>forceKilled\<close>, \<open>killFailed\<close>, \<open>alreadyGone\<close>. The
  program returns \<^verbatim>\<open>True\<close> and keeps no records; and a process for which the interrupt and
  terminate both raise \<^verbatim>\<open>AccessDenied\<close> is logged by the handler of line 182 and left alone:
  it is not seen to exit, it is not reported gone, and no kill is attempted.
\<close>

theorem outcome_states_counterexample:
  "final_states_of
     (snd (graceful_shutdown_trex Config_default
             (constant_env Unix ''90'' [miner] AccessDenied AccessDenied True) [miner] initial))
     (pid miner)
   \<notin> {[gracefullyExited], [forceKilled], [killFailed], [alreadyGone]}"
proof -
  have "final_states_of
     (snd (graceful_shutdown_trex Config_default
             (constant_env Unix ''90'' [miner] AccessDenied AccessDenied True) [miner] initial))
     (pid miner) = [signalFailed]"
    by code_simp
  then show ?thesis by simp
qed

text \<open>
  What each final state means in the log lines and the actions of a state.
\<close>

lemma in_log_outcome:
  "(p, s) \<in> set (log_outcome (l, m)) \<longleftrightarrow>
     (s = gracefullyExited \<and> (m = Shut_down_via_sigint p \<or> m = Shut_down_via_ctrl_c p))
     \<or> (s = alreadyGone \<and> m = Already_terminated p)
     \<or> (s = signalFailed \<and> m = Error_terminating p)"
  by (cases m) auto

lemma in_action_outcome:
  "(p, s) \<in> set (action_outcome a) \<longleftrightarrow>
     (s = gracefullyExited \<and> (\<exists>gone alive. a = Wait_procs gone alive \<and> p \<in> set gone))
     \<or> (s = forceKilled \<and> a = Kill p Ok)
     \<or> (s = killFailed \<and> (\<exists>r. r \<noteq> Ok \<and> a = Kill p r))"
  by (cases a) auto

lemma final_states_of_outcomes:
  "s \<in> set (final_states_of st p) \<longleftrightarrow> (p, s) \<in> set (outcomes st)"
  by (force simp: final_states_of_def)

lemma in_outcomes:
  "(p, s) \<in> set (outcomes st) \<longleftrightarrow>
     (\<exists>x \<in> set (logs st). (p, s) \<in> set (log_outcome x))
     \<or> (\<exists>a \<in> set (actions st). (p, s) \<in> set (action_outcome a))"
  by (auto simp: outcomes_def)

lemma in_final_states_of:
  "s \<in> set (final_states_of st p) \<longleftrightarrow>
     (\<exists>m. logged st m \<and> (\<exists>l. (p, s) \<in> set (log_outcome (l, m))))
     \<or> (\<exists>a \<in> set (actions st). (p, s) \<in> set (action_outcome a))"
proof -
  have "(\<exists>x \<in> set (logs st). (p, s) \<in> set (log_outcome x))
          \<longleftrightarrow> (\<exists>m. logged st m \<and> (\<exists>l. (p, s) \<in> set (log_outcome (l, m))))"
    by (force simp: logged_def in_log_outcome)
  then show ?thesis
    by (simp add: final_states_of_outcomes in_outcomes)
qed

lemma final_states_meaning:
  "gracefullyExited \<in> set (final_states_of st p) \<longleftrightarrow>
     logged st (Shut_down_via_sigint p) \<or> logged st (Shut_down_via_ctrl_c p)
     \<or> (\<exists>gone alive. Wait_procs gone alive \<in> set (actions st) \<and> p \<in> set gone)"
  "forceKilled \<in> set (final_states_of st p) \<longleftrightarrow> Kill p Ok \<in> set (actions st)"
  "killFailed \<in> set (final_states_of st p) \<longleftrightarrow> (\<exists>r. r \<noteq> Ok \<and> Kill p r \<in> set (actions st))"
  "alreadyGone \<in> set (final_states_of st p) \<longleftrightarrow> logged st (Already_terminated p)"
  "signalFailed \<in> set (final_states_of st p) \<longleftrightarrow> logged st (Error_terminating p)"
  by (auto simp: in_final_states_of in_log_outcome in_action_outcome)

text \<open>
  C5, amended: the orchestration returns \<^verbatim>\<open>True\<close> and keeps no outcome records. What it
  logs and does gives every target (with pairwise distinct pids, as an enumeration yields
  them) exactly one final state, and no other pid gets one: \<open>gracefullyExited\<close> (the program
  logs that the process shut down after the interrupt, or \<^verbatim>\<open>wait_procs\<close> reports it gone),
  \<open>forceKilled\<close> (\<^verbatim>\<open>kill\<close> returned), \<open>killFailed\<close> (\<^verbatim>\<open>kill\<close> raised), \<open>alreadyGone\<close> (the
  program logs the process as already terminated), or \<open>signalFailed\<close> (the program logs an
  error terminating the process; no kill is attempted on such a process).
\<close>

theorem every_target_one_outcome:
  assumes "distinct (map pid processes)"
  shows "fst (graceful_shutdown_trex cfg e processes initial) = True
   \<and> mset (map fst (outcomes (snd (graceful_shutdown_trex cfg e processes initial))))
       = mset (map pid processes)
   \<and> (\<forall>proc \<in> set processes.
        \<exists>s. final_states_of (snd (graceful_shutdown_trex cfg e processes initial)) (pid proc) = [s])
   \<and> (\<forall>p. gracefullyExited
              \<in> set (final_states_of (snd (graceful_shutdown_trex cfg e processes initial)) p)
            \<longleftrightarrow> logged (snd (graceful_shutdown_trex cfg e processes initial))
                    (Shut_down_via_sigint p)
                \<or> logged (snd (graceful_shutdown_trex cfg e processes initial))
                    (Shut_down_via_ctrl_c p)
                \<or> (\<exists>gone alive.
                      Wait_procs gone alive
                        \<in> set (actions (snd (graceful_shutdown_trex cfg e processes initial)))
                      \<and> p \<in> set gone))
   \<and> (\<forall>p. forceKilled
              \<in> set (final_states_of (snd (graceful_shutdown_trex cfg e processes initial)) p)
            \<longleftrightarrow> Kill p Ok \<in> set (actions (snd (graceful_shutdown_trex cfg e processes initial))))
   \<and> (\<forall>p. killFailed
              \<in> set (final_states_of (snd (graceful_shutdown_trex cfg e processes initial)) p)
            \<longleftrightarrow> (\<exists>r. r \<noteq> Ok
                      \<and> Kill p r \<in> set (actions (snd (graceful_shutdown_trex cfg e processes initial)))))
   \<and> (\<forall>p. alreadyGone
              \<in> set (final_states_of (snd (graceful_shutdown_trex cfg e processes initial)) p)
            \<longleftrightarrow> logged (snd (graceful_shutdown_trex cfg e processes initial))
                    (Already_terminated p))
   \<and> (\<forall>p. signalFailed
              \<in> set (final_states_of (snd (graceful_shutdown_trex cfg e processes initial)) p)
            \<longleftrightarrow> logged (snd (graceful_shutdown_trex cfg e processes initial))
                    (Error_terminating p))
   \<and> (\<forall>proc \<in> set processes.
        logged (snd (graceful_shutdown_trex cfg e processes initial)) (Error_terminating (pid proc))
        \<longrightarrow> (\<forall>r. Kill (pid proc) r
                     \<notin> set (actions (snd (graceful_shutdown_trex cfg e processes initial)))))"
proof -
  let ?st = "snd (graceful_shutdown_trex cfg e processes initial)"
  have m: "mset (map fst (outcomes ?st)) = mset (map pid processes)"
    using graceful_shutdown_trex_outcome [of cfg e processes initial] outcome_pids_initial
    by (simp add: outcome_pids_def)
  have one: "\<exists>s. final_states_of ?st (pid proc) = [s]" if "proc \<in> set processes" for proc
  proof -
    from that have "pid proc \<in> set (map pid processes)" by simp
    with assms have "count (mset (map pid processes)) (pid proc) = 1"
      by (simp add: distinct_count_atmost_1)
    with m have "length (final_states_of ?st (pid proc)) = 1"
      by (simp add: final_states_of_def length_filter_pid)
    then show ?thesis by (cases "final_states_of ?st (pid proc)") auto
  qed
  have nokill: "Kill (pid proc) r \<notin> set (actions ?st)"
    if "proc \<in> set processes" "logged ?st (Error_terminating (pid proc))" for proc r
  proof
    assume k: "Kill (pid proc) r \<in> set (actions ?st)"
    from one [OF that(1)] obtain s where s: "final_states_of ?st (pid proc) = [s]" ..
    from that(2) have "signalFailed \<in> set (final_states_of ?st (pid proc))"
      by (simp add: final_states_meaning)
    with s have "s = signalFailed" by simp
    moreover from k have "forceKilled \<in> set (final_states_of ?st (pid proc))
                          \<or> killFailed \<in> set (final_states_of ?st (pid proc))"
      by (cases "r = Ok") (auto simp: final_states_meaning)
    with s have "s = forceKilled \<or> s = killFailed" by auto
    ultimately show False by simp
  qed
  from m one nokill show ?thesis
    by (simp add: graceful_shutdown_trex_True final_states_meaning)
qed

theorem every_target_one_outcome_witness:
  "distinct (map pid [miner, script])
   \<and> fst (graceful_shutdown_trex (Config_default\<lparr>grace_period := 5\<rparr>)
            (constant_env Unix ''90'' [miner, script] Ok Ok True) [miner, script] initial) = True
   \<and> final_states_of
        (snd (graceful_shutdown_trex (Config_default\<lparr>grace_period := 5\<rparr>)
                (constant_env Unix ''90'' [miner, script] Ok Ok True) [miner, script] initial))
        (pid miner) = [forceKilled]
   \<and> Kill (pid miner) Ok
        \<in> set (actions
                 (snd (graceful_shutdown_trex (Config_default\<lparr>grace_period := 5\<rparr>)
                         (constant_env Unix ''90'' [miner, script] Ok Ok True) [miner, script]
                         initial)))"
proof -
  let ?st = "snd (graceful_shutdown_trex (Config_default\<lparr>grace_period := 5\<rparr>)
                (constant_env Unix ''90'' [miner, script] Ok Ok True) [miner, script] initial)"
  have d: "distinct (map pid [miner, script])"
    by (simp add: miner_def script_def)
  have f: "final_states_of ?st (pid miner) = [forceKilled]"
    by code_simp
  note t = every_target_one_outcome
             [OF d, of "Config_default\<lparr>grace_period := 5\<rparr>"
                       "constant_env Unix ''90'' [miner, script] Ok Ok True"]
  from t have r: "fst (graceful_shutdown_trex (Config_default\<lparr>grace_period := 5\<rparr>)
            (constant_env Unix ''90'' [miner, script] Ok Ok True) [miner, script] initial) = True"
    by blast
  from t have "forceKilled \<in> set (final_states_of ?st (pid miner))
                 \<longleftrightarrow> Kill (pid miner) Ok \<in> set (actions ?st)"
    by blast
  with f have k: "Kill (pid miner) Ok \<in> set (actions ?st)" by simp
  from d r f k show ?thesis by simp
qed

subsection \<open>The loop\<close>

lemma actions_find_trex_processes [simp]:
  "actions (snd (find_trex_processes cfg e st)) = actions st @ [Enumerate]"
  by (simp add: find_trex_processes_def case_prod_beta)

lemma actions_py_sleep:
  "actions (end_state (py_sleep n st)) = actions st @ (if 0 \<le> n then [Sleep n] else [])"
  by (simp add: py_sleep_def end_state_def)

lemma logs_py_sleep: "logs (end_state (py_sleep n st)) = logs st"
  by (simp add: py_sleep_def end_state_def)

lemma tick_quiet_logs:
  "fst (sample e st) = None \<or> (\<exists>t. fst (sample e st) = Some t \<and> t < temp_threshold cfg) \<Longrightarrow>
   logs (end_state (tick cfg e st)) =
     logs (snd (sample e st)) @
       [case fst (sample e st) of
          None \<Rightarrow> (WARNING, Could_not_read_temperature)
        | Some t \<Rightarrow> (DEBUG, Current_temperature t)]"
  by (auto simp: tick_def case_prod_beta logs_py_sleep Let_def)

lemma tick_unavailable:
  "fst (sample e st) = None \<Longrightarrow>
   actions (end_state (tick cfg e st)) =
     actions st @ Query_sensor # (if 0 \<le> check_interval cfg then [Sleep (check_interval cfg)] else [])"
  by (simp add: tick_def case_prod_beta actions_py_sleep)

lemma tick_below:
  "fst (sample e st) = Some t \<Longrightarrow> t < temp_threshold cfg \<Longrightarrow>
   actions (end_state (tick cfg e st)) =
     actions st @ Query_sensor # (if 0 \<le> check_interval cfg then [Sleep (check_interval cfg)] else [])"
  by (simp add: tick_def case_prod_beta actions_py_sleep Let_def)

lemma tick_above:
  assumes "fst (sample e st) = Some t" "temp_threshold cfg \<le> t"
  shows "\<exists>zs. actions (end_state (tick cfg e st)) = actions st @ Query_sensor # Enumerate # zs"
proof -
  let ?st3 = "logger CRITICAL (Exceeds_threshold t (temp_threshold cfg))
                (logger DEBUG (Current_temperature t) (snd (sample e st)))"
  let ?f = "find_trex_processes cfg e ?st3"
  have a4: "actions (snd ?f) = actions st @ [Query_sensor, Enumerate]" by simp
  show ?thesis
  proof (cases "fst ?f = []")
    case True
    with assms a4 show ?thesis
      by (simp add: tick_def case_prod_beta actions_py_sleep Let_def)
  next
    case False
    let ?g = "graceful_shutdown_trex cfg e (fst ?f) (snd ?f)"
    from graceful_shutdown_trex_prefix [of "snd ?f" cfg e "fst ?f"] a4
    obtain zs where "actions (snd ?g) = actions st @ [Query_sensor, Enumerate] @ zs"
      by (auto simp: prefix_def)
    with assms False show ?thesis
      by (simp add: tick_def case_prod_beta actions_py_sleep Let_def)
  qed
qed

text \<open>
  C2. A pass of the loop enumerates processes exactly when the reading is a number at or
  above the threshold. When the reading is unavailable or below the threshold, the pass
  queries the sensor and sleeps \<^verbatim>\<open>check_interval\<close> seconds and does nothing else: no
  enumeration, no signal (a negative interval makes \<^verbatim>\<open>time.sleep\<close> raise instead); it logs
  what the sensor query logs and one line of its own, none of them a line of the matcher or
  of the orchestrator.
\<close>

theorem tick_gating:
  "(Enumerate \<in> set (new_actions st (end_state (tick cfg e st)))
      \<longleftrightarrow> (\<exists>t. fst (sample e st) = Some t \<and> temp_threshold cfg \<le> t))
   \<and> (fst (sample e st) = None \<or> (\<exists>t. fst (sample e st) = Some t \<and> t < temp_threshold cfg)
        \<longrightarrow> new_actions st (end_state (tick cfg e st)) =
              Query_sensor # (if 0 \<le> check_interval cfg then [Sleep (check_interval cfg)] else [])
          \<and> logs (end_state (tick cfg e st)) =
              logs (snd (sample e st)) @
                [case fst (sample e st) of
                   None \<Rightarrow> (WARNING, Could_not_read_temperature)
                 | Some t \<Rightarrow> (DEBUG, Current_temperature t)])"
proof (cases "fst (sample e st)")
  case None
  from tick_unavailable [OF None, of cfg] tick_quiet_logs [of e st cfg] None show ?thesis
    by (simp add: new_actions_def)
next
  case (Some t)
  show ?thesis
  proof (cases "t < temp_threshold cfg")
    case True
    from tick_below [OF Some True] tick_quiet_logs [of e st cfg] Some True show ?thesis
      by (simp add: new_actions_def)
  next
    case False
    then have "temp_threshold cfg \<le> t" by simp
    from tick_above [OF Some this] obtain zs where
      "actions (end_state (tick cfg e st)) = actions st @ Query_sensor # Enumerate # zs" ..
    with Some False show ?thesis
      by (simp add: new_actions_def)
  qed
qed

theorem tick_gating_witness:
  "fst (sample (constant_env Unix ''60'' [miner] Ok Ok True) initial) = Some 60
   \<and> 60 < temp_threshold Config_default
   \<and> new_actions initial
        (end_state (tick Config_default (constant_env Unix ''60'' [miner] Ok Ok True) initial))
       = [Query_sensor, Sleep 10]
   \<and> fst (sample ((constant_env Unix [] [miner] Ok Ok True)
                    \<lparr>nvidia_smi := (\<lambda>a. Completed 1 [] ''no devices found'')\<rparr>) initial) = None
   \<and> new_actions initial
        (end_state (tick Config_default
                      ((constant_env Unix [] [miner] Ok Ok True)
                         \<lparr>nvidia_smi := (\<lambda>a. Completed 1 [] ''no devices found'')\<rparr>) initial))
       = [Query_sensor, Sleep 10]
   \<and> fst (sample (constant_env Unix ''90'' [miner] Ok Ok True) initial) = Some 90
   \<and> Enumerate \<in> set (new_actions initial
        (end_state (tick Config_default (constant_env Unix ''90'' [miner] Ok Ok True) initial)))"
proof -
  have s: "fst (sample (constant_env Unix ''60'' [miner] Ok Ok True) initial) = Some 60"
    by code_simp
  have u: "fst (sample ((constant_env Unix [] [miner] Ok Ok True)
                    \<lparr>nvidia_smi := (\<lambda>a. Completed 1 [] ''no devices found'')\<rparr>) initial) = None"
    by code_simp
  have s': "fst (sample (constant_env Unix ''90'' [miner] Ok Ok True) initial) = Some 90"
    by code_simp
  have c: "temp_threshold Config_default = 85" "check_interval Config_default = 10"
    by (simp_all add: Config_default_def)
  from tick_gating [of initial Config_default "constant_env Unix ''60'' [miner] Ok Ok True"]
       tick_gating [of initial Config_default
                       "(constant_env Unix [] [miner] Ok Ok True)
                          \<lparr>nvidia_smi := (\<lambda>a. Completed 1 [] ''no devices found'')\<rparr>"]
       tick_gating [of initial Config_default "constant_env Unix ''90'' [miner] Ok Ok True"]
       s u s' c
  show ?thesis by simp
qed

end
